theory Spec2Isabelle
  imports Complex_Main "HOL-Library.Word"
begin

section \<open>Shared data model\<close>

text \<open>
  Residue codes (\<open>aa\<close>) are bytes, a \<open>sequence\<close> is a string of residue codes, fixed
  positions are signed 16-bit values (\<open>vector<int16>\<close>).  The gap code
  \<open>kSignalGapCode\<close> is declared in a header that is not part of the sources at hand;
  every operation below takes it as its first argument.
\<close>

type_synonym aa = "8 word"
type_synonym sequence = "aa list"

datatype error =
    AssertionFailed
  | OutOfRange
  | UndefinedValue
  | Diverges
  | InvalidLetter char

record entry =
  m_nr :: nat
  m_id :: string
  m_seq :: sequence
  m_positions :: "16 word list"
  m_ss :: string

section \<open>mas.cpp: the sequence container\<close>

text \<open>The assertion closing \<open>insert_gap\<close> and \<open>append_gap\<close>.\<close>

definition positions_assert :: "entry \<Rightarrow> error + entry" where
  "positions_assert e =
     (if length (m_positions e) = length (m_seq e) \<or> m_positions e = []
      then Inr e else Inl AssertionFailed)"

text \<open>
  \<open>entry::insert_gap(uint32 pos)\<close>.  \<open>basic_string::insert(pos, &r, 1)\<close> is reached only
  with \<open>pos \<le> length\<close>; \<open>vector::insert(begin() + pos, 0)\<close> past the end of the positions
  vector has no defined behaviour and is the error \<open>OutOfRange\<close>.
\<close>

definition insert_gap :: "aa \<Rightarrow> 32 word \<Rightarrow> entry \<Rightarrow> error + entry" where
  "insert_gap kSignalGapCode pos e =
     (if unat pos > length (m_seq e) then
        positions_assert
          (e\<lparr>m_seq := m_seq e @ [kSignalGapCode],
             m_positions :=
               (if m_positions e \<noteq> [] then m_positions e @ [0] else m_positions e)\<rparr>)
      else if m_positions e \<noteq> [] \<and> unat pos > length (m_positions e) then Inl OutOfRange
      else
        positions_assert
          (e\<lparr>m_seq := take (unat pos) (m_seq e) @ [kSignalGapCode] @ drop (unat pos) (m_seq e),
             m_positions :=
               (if m_positions e \<noteq> []
                then take (unat pos) (m_positions e) @ [0] @ drop (unat pos) (m_positions e)
                else m_positions e)\<rparr>))"

definition append_gap :: "aa \<Rightarrow> entry \<Rightarrow> error + entry" where
  "append_gap kSignalGapCode e =
     positions_assert
       (e\<lparr>m_seq := m_seq e @ [kSignalGapCode],
          m_positions :=
            (if m_positions e \<noteq> [] then m_positions e @ [0] else m_positions e)\<rparr>)"

text \<open>
  \<open>std::find\<close> and \<open>std::remove\<close> over a buffer addressed by index: \<open>find_from\<close> returns
  the index of the first element equal to \<open>v\<close> at or after \<open>i\<close> (the length when there
  is none); \<open>remove_from\<close> is the loop of \<open>std::remove\<close>, which moves every element
  different from \<open>v\<close> down to the write index \<open>first\<close> and returns the buffer together
  with the final write index.
\<close>

function find_from :: "'a list \<Rightarrow> 'a \<Rightarrow> nat \<Rightarrow> nat" where
  "find_from xs v i =
     (if i < length xs then (if xs ! i = v then i else find_from xs v (Suc i)) else length xs)"
  by pat_completeness auto
termination
  by (relation "measure (\<lambda>(xs, v, i). length xs - i)") auto

function remove_from :: "'a list \<Rightarrow> 'a \<Rightarrow> nat \<Rightarrow> nat \<Rightarrow> 'a list \<times> nat" where
  "remove_from xs v first i =
     (if i < length xs then
        (if xs ! i \<noteq> v then remove_from (xs[first := xs ! i]) v (Suc first) (Suc i)
         else remove_from xs v first (Suc i))
      else (xs, first))"
  by pat_completeness auto
termination
  by (relation "measure (\<lambda>(xs, v, first, i). length xs - i)") auto

declare find_from.simps [simp del] remove_from.simps [simp del]

definition std_remove :: "'a list \<Rightarrow> 'a \<Rightarrow> 'a list \<times> nat" where
  "std_remove xs v =
     (let first = find_from xs v 0
      in if first \<noteq> length xs then remove_from xs v first (Suc first) else (xs, first))"

text \<open>\<open>s.erase(remove(s.begin(), s.end(), v), s.end())\<close>.\<close>

definition erase_remove :: "'a list \<Rightarrow> 'a \<Rightarrow> 'a list" where
  "erase_remove xs v = (case std_remove xs v of (ys, first) \<Rightarrow> take first ys)"

text \<open>
  \<open>entry::remove_gaps()\<close>, in a build with assertions enabled: \<open>assert(false)\<close> is the
  error \<open>AssertionFailed\<close>.
\<close>

definition remove_gaps :: "aa \<Rightarrow> entry \<Rightarrow> error + entry" where
  "remove_gaps kSignalGapCode e =
     (if length (m_seq e) = length (m_positions e) then Inl AssertionFailed
      else Inr (e\<lparr>m_seq := erase_remove (m_seq e) kSignalGapCode\<rparr>))"

section \<open>hssp-convert-3to1.cpp: the MSA row\<close>

text \<open>
  \<open>seq::seq_impl\<close>.  The character buffer \<open>m_data\<close> is a list and the pointer \<open>m_seq\<close>
  into it is the offset \<open>m_seq_off\<close>, so that \<open>m_seq[i]\<close> is \<open>m_data ! (m_seq_off + i)\<close>.
  The two \<open>float\<close> counters \<open>m_identical\<close> and \<open>m_similar\<close> hold whole numbers and are
  natural numbers here; \<open>float_incr\<close> is \<open>++\<close> on such a counter, which no longer
  changes a binary32 value once it has reached \<open>2 ^ 24\<close>.  The identifier strings, the
  reference count and the quotient \<open>m_score\<close> are left out: no operation below reads
  them.
\<close>

record insertion =
  m_ipos :: "32 word"
  m_jpos :: "32 word"
  m_ins_seq :: string

record seq_impl =
  m_ifir :: "32 word"
  m_ilas :: "32 word"
  m_jfir :: "32 word"
  m_jlas :: "32 word"
  m_length :: "32 word"
  m_identical :: nat
  m_similar :: nat
  m_begin :: "32 word"
  m_end :: "32 word"
  m_gaps :: "32 word"
  m_gapn :: "32 word"
  m_insertions :: "insertion list"
  m_data :: string
  m_seq_off :: nat
  m_size :: "32 word"
  m_space :: "32 word"
  m_pruned :: bool

definition float_incr :: "nat \<Rightarrow> nat" where
  "float_incr n = (if n < 2 ^ 24 then Suc n else n)"

text \<open>
  \<open>seq::seq_impl::cut(uint32 pos, uint32 n)\<close>; the sum \<open>pos + n\<close> of the assertion is
  computed in 32 bits.
\<close>

definition cut :: "32 word \<Rightarrow> 32 word \<Rightarrow> seq_impl \<Rightarrow> error + seq_impl" where
  "cut pos n s =
     (if \<not> pos + n \<le> m_size s then Inl AssertionFailed
      else
        let s1 = s\<lparr>m_seq_off := m_seq_off s + unat pos, m_size := n\<rparr>;
            s2 = (if m_begin s1 > pos then s1\<lparr>m_begin := m_begin s1 - pos\<rparr>
                  else s1\<lparr>m_begin := 0\<rparr>);
            s3 = (if m_end s2 > pos then s2\<lparr>m_end := m_end s2 - pos\<rparr>
                  else s2\<lparr>m_end := 0\<rparr>);
            s4 = (if m_end s3 > m_size s3 then s3\<lparr>m_end := m_size s3\<rparr> else s3)
        in Inr s4)"

text \<open>The window invariant of the data model: \<open>alignment_begin \<le> alignment_end \<le> size\<close>.\<close>

definition window_ok :: "seq_impl \<Rightarrow> bool" where
  "window_ok s \<longleftrightarrow> m_begin s \<le> m_end s \<and> m_end s \<le> m_size s"

section \<open>Single-precision arithmetic\<close>

text \<open>
  A \<open>float\<close> is the rational number it holds.  \<open>f32\<close> rounds a rational to the nearest
  binary32 value, ties to even, with 24 significant bits and the smallest exponent
  \<open>- 126\<close> (so subnormal numbers are covered); every arithmetic operation on floats is
  the exact operation followed by \<open>f32\<close>, as IEEE 754 prescribes.  Magnitudes from
  \<open>2 ^ 128\<close> on, infinities and NaN are outside the model; division is used only
  with a divisor that is not zero.
\<close>

definition pow2 :: "int \<Rightarrow> rat" where
  "pow2 k = (if 0 \<le> k then 2 ^ nat k else 1 / 2 ^ nat (- k))"

function bits :: "int \<Rightarrow> int" where
  "bits a = (if a \<le> 0 then 0 else 1 + bits (a div 2))"
  by pat_completeness auto
termination
  by (relation "measure nat") auto

declare bits.simps [simp del]

text \<open>\<open>ilog2 q\<close> is the exponent \<open>e\<close> with \<open>2 ^ e \<le> q < 2 ^ (e + 1)\<close>, for \<open>q > 0\<close>.\<close>

definition ilog2 :: "rat \<Rightarrow> int" where
  "ilog2 q =
     (case quotient_of q of (a, b) \<Rightarrow>
        let e = bits a - bits b
        in if pow2 e \<le> q then e else e - 1)"

definition round_even :: "rat \<Rightarrow> int" where
  "round_even m =
     (let f = \<lfloor>m\<rfloor>; d = m - of_int f
      in if d < 1 / 2 then f else if 1 / 2 < d then f + 1 else if even f then f else f + 1)"

definition f32 :: "rat \<Rightarrow> rat" where
  "f32 q =
     (if q = 0 then 0
      else let p = max (ilog2 \<bar>q\<bar>) (- 126) - 23
           in of_int (round_even (q / pow2 p)) * pow2 p)"

definition fadd :: "rat \<Rightarrow> rat \<Rightarrow> rat" where
  "fadd x y = f32 (x + y)"

definition fsub :: "rat \<Rightarrow> rat \<Rightarrow> rat" where
  "fsub x y = f32 (x - y)"

definition fmul :: "rat \<Rightarrow> rat \<Rightarrow> rat" where
  "fmul x y = f32 (x * y)"

definition fdiv :: "rat \<Rightarrow> rat \<Rightarrow> rat" where
  "fdiv x y = f32 (x / y)"

text \<open>\<open>numeric_limits<float>::min()\<close>, the smallest positive normal number.\<close>

definition FLT_MIN :: rat where
  "FLT_MIN = pow2 (- 126)"

text \<open>
  A \<open>double\<close> is modelled in the same way: \<open>f64\<close> rounds a rational to the nearest
  binary64 value, ties to even, with 53 significant bits and the smallest exponent
  \<open>- 1022\<close>, and every operation on doubles is the exact operation followed by \<open>f64\<close>.
\<close>

definition f64 :: "rat \<Rightarrow> rat" where
  "f64 q =
     (if q = 0 then 0
      else let p = max (ilog2 \<bar>q\<bar>) (- 1022) - 52
           in of_int (round_even (q / pow2 p)) * pow2 p)"

definition dadd :: "rat \<Rightarrow> rat \<Rightarrow> rat" where
  "dadd x y = f64 (x + y)"

definition dmul :: "rat \<Rightarrow> rat \<Rightarrow> rat" where
  "dmul x y = f64 (x * y)"

definition ddiv :: "rat \<Rightarrow> rat \<Rightarrow> rat" where
  "ddiv x y = f64 (x / y)"

section \<open>hssp-convert-3to1.cpp: residue table and row access\<close>

text \<open>
  The table \<open>kResidueIX\<close> (256 signed bytes: a residue index, \<open>- 2\<close> for a gap character,
  \<open>- 1\<close> for any other character) and the similarity matrix \<open>kD\<close> are declared outside
  the sources at hand.  Both are parameters of the functions that read them: the table
  as a function from characters to bytes, read as signed with \<open>sint\<close> where the source
  stores the entry in an \<open>int8\<close> and as unsigned with \<open>uint\<close> where it stores it in a
  \<open>uint8\<close>; the matrix as a function from two indices to a float, defined on every
  pair of indices, so that an index outside the residues reads whatever the parameter
  holds there.
\<close>

type_synonym residue_table = "char \<Rightarrow> 8 word"
type_synonym similarity_matrix = "nat \<Rightarrow> nat \<Rightarrow> rat"

definition is_gap :: "residue_table \<Rightarrow> char \<Rightarrow> bool" where
  "is_gap kResidueIX aa \<longleftrightarrow> sint (kResidueIX aa) = - 2"

definition tolower_c :: "char \<Rightarrow> char" where
  "tolower_c c =
     (if 65 \<le> (of_char c :: nat) \<and> (of_char c :: nat) \<le> 90
      then char_of (of_char c + 32 :: nat) else c)"

definition toupper_c :: "char \<Rightarrow> char" where
  "toupper_c c =
     (if 97 \<le> (of_char c :: nat) \<and> (of_char c :: nat) \<le> 122
      then char_of (of_char c - 32 :: nat) else c)"

fun index_from :: "'a \<Rightarrow> 'a list \<Rightarrow> nat \<Rightarrow> nat option" where
  "index_from x [] n = None"
| "index_from x (y # ys) n = (if x = y then Some n else index_from x ys (Suc n))"

text \<open>
  Modelled from the spec: the contents of the table \<open>kResidueIX\<close>, which the sources at
  hand do not hold.  The spec's data model says that the letters of the 20-letter
  alphabet, in upper or lower case, resolve to a residue index in \<open>[0, 20)\<close>, the
  gap-equivalent characters \<open>- . * ~ _\<close> and the space to the gap index, and that any
  other letter is a validation failure.  The indices follow the column order of the
  profile header that \<open>CreateHSSPOutput\<close> writes; the gap index is the \<open>- 2\<close> tested by
  \<open>is_gap\<close> and the failure index the \<open>- 1\<close> tested by \<open>update\<close>.  Only the closed
  examples below use this table.
\<close>

definition kResidueIX_spec :: residue_table where
  "kResidueIX_spec c =
     (if c \<in> set ''-.*~_ '' then - 2
      else case index_from (toupper_c c) ''VLIMFWYGAPSTCHRKQEND'' 0 of
             Some i \<Rightarrow> of_nat i
           | None \<Rightarrow> - 1)"

text \<open>A read of the character buffer at an absolute index.\<close>

definition buf_read :: "seq_impl \<Rightarrow> nat \<Rightarrow> error + char" where
  "buf_read s a = (if a < length (m_data s) then Inr (m_data s ! a) else Inl OutOfRange)"

text \<open>\<open>seq::operator[](uint32 offset)\<close>, with its assertion.\<close>

definition seq_at :: "seq_impl \<Rightarrow> 32 word \<Rightarrow> error + char" where
  "seq_at s offset =
     (if \<not> offset < m_size s then Inl AssertionFailed
      else buf_read s (m_seq_off s + unat offset))"

text \<open>\<open>seq::length()\<close>, \<open>alignment_begin()\<close> and \<open>alignment_end()\<close> read the fields.\<close>

definition seq_length :: "seq_impl \<Rightarrow> 32 word" where
  "seq_length s = m_end s - m_begin s"

text \<open>
  A row as the loader leaves it after the constructor and one \<open>append\<close> of its text:
  the window is the whole row.
\<close>

definition row_of :: "string \<Rightarrow> seq_impl" where
  "row_of text =
     \<lparr>m_ifir = 0, m_ilas = 0, m_jfir = 0, m_jlas = 0, m_length = 0, m_identical = 0,
      m_similar = 0, m_begin = 0, m_end = of_nat (length text), m_gaps = 0, m_gapn = 0,
      m_insertions = [], m_data = text, m_seq_off = 0, m_size = of_nat (length text),
      m_space = of_nat (max 1024 (length text)), m_pruned = False\<rparr>"

section \<open>hssp-convert-3to1.cpp: the MSA-to-hit reducer\<close>

text \<open>The local variables of \<open>seq::seq_impl::update\<close>.\<close>

record upd_vars =
  v_ipos :: "32 word"
  v_jpos :: "32 word"
  v_sgapf :: bool
  v_qgapf :: bool
  v_gapn :: "32 word"
  v_gaps :: "32 word"
  v_ins :: insertion
  v_length :: "32 word"

text \<open>
  The search \<open>while (gsi != begin() and is_gap(*gsi)) --gsi\<close>, on absolute buffer
  indices: \<open>off\<close> is \<open>begin()\<close> and \<open>a\<close> is \<open>gsi\<close>.  Stepping below the buffer is the error
  \<open>OutOfRange\<close>.
\<close>

fun gap_walk :: "residue_table \<Rightarrow> string \<Rightarrow> nat \<Rightarrow> nat \<Rightarrow> error + nat" where
  "gap_walk kResidueIX d off 0 =
     (if 0 = off then Inr 0
      else if 0 < length d then (if is_gap kResidueIX (d ! 0) then Inl OutOfRange else Inr 0)
      else Inl OutOfRange)"
| "gap_walk kResidueIX d off (Suc a) =
     (if Suc a = off then Inr (Suc a)
      else if Suc a < length d then
        (if is_gap kResidueIX (d ! Suc a) then gap_walk kResidueIX d off a else Inr (Suc a))
      else Inl OutOfRange)"

text \<open>
  The end of the loop body, from \<open>if (*qi == *si)\<close> on: \<open>qc\<close> and \<open>sc\<close> are \<open>*qi\<close> and
  \<open>*si\<close>, \<open>rq\<close> and \<open>rs\<close> are the \<open>uint8\<close> variables, compared with \<open>- 1\<close> and \<open>0\<close> as
  integers.
\<close>

definition upd_tail ::
  "residue_table \<Rightarrow> similarity_matrix \<Rightarrow> char \<Rightarrow> char \<Rightarrow> 32 word \<Rightarrow>
     upd_vars \<times> seq_impl \<Rightarrow> error + upd_vars \<times> seq_impl" where
  "upd_tail kResidueIX kD qc sc i st =
     (case st of (v, s) \<Rightarrow>
        let s1 = (if qc = sc then s\<lparr>m_identical := float_incr (m_identical s)\<rparr> else s);
            rq = kResidueIX qc
        in if uint rq = - 1 then Inl (InvalidLetter qc)
           else
             let rs = kResidueIX sc
             in if uint rs = - 1 then Inl (InvalidLetter sc)
                else
                  let s2 = (if 0 \<le> uint rq \<and> 0 \<le> uint rs \<and> 0 \<le> kD (unat rq) (unat rs)
                            then s1\<lparr>m_similar := float_incr (m_similar s1)\<rparr> else s1);
                      s3 = (if m_begin s2 = - 1 then s2\<lparr>m_begin := i\<rparr> else s2)
                  in Inr (v, s3\<lparr>m_end := i + 1\<rparr>))"

text \<open>The branch \<open>else if (qgap)\<close> up to the shared end of the body.\<close>

definition upd_qgap ::
  "residue_table \<Rightarrow> char \<Rightarrow> 32 word \<Rightarrow> upd_vars \<times> seq_impl \<Rightarrow> error + upd_vars \<times> seq_impl" where
  "upd_qgap kResidueIX sc i st =
     (case st of (v, s) \<Rightarrow>
        let opened =
              (if \<not> v_qgapf v then
                 (if m_seq_off s + unat i = 0 then Inl OutOfRange
                  else
                    case gap_walk kResidueIX (m_data s) (m_seq_off s) (m_seq_off s + unat i - 1) of
                      Inl e \<Rightarrow> Inl e
                    | Inr a \<Rightarrow>
                        (if a < length (m_data s) then
                           let c = tolower_c (m_data s ! a)
                           in Inr (v\<lparr>v_ins := \<lparr>m_ipos = v_ipos v, m_jpos = v_jpos v,
                                                 m_ins_seq = [c]\<rparr>\<rparr>,
                                   s\<lparr>m_data := (m_data s)[a := c]\<rparr>)
                         else Inl OutOfRange))
               else Inr (v, s))
        in case opened of
             Inl e \<Rightarrow> Inl e
           | Inr (v1, s1) \<Rightarrow>
               let v2 = v1\<lparr>v_ins := (v_ins v1)\<lparr>m_ins_seq := m_ins_seq (v_ins v1) @ [sc]\<rparr>\<rparr>;
                   v3 = (if \<not> (v_sgapf v2 \<or> v_qgapf v2) then v2\<lparr>v_gaps := v_gaps v2 + 1\<rparr>
                         else v2)
               in Inr (v3\<lparr>v_qgapf := True, v_gapn := v_gapn v3 + 1, v_jpos := v_jpos v3 + 1\<rparr>,
                       s1))"

text \<open>The last branch: neither the query nor the subject has a gap in this column.\<close>

definition upd_aligned ::
  "char \<Rightarrow> 32 word \<Rightarrow> upd_vars \<times> seq_impl \<Rightarrow> (upd_vars \<times> seq_impl) \<times> char" where
  "upd_aligned sc i st =
     (case st of (v, s) \<Rightarrow>
        let c = (if v_qgapf v then tolower_c sc else sc);
            v1 = (if v_qgapf v
                  then v\<lparr>v_ins := (v_ins v)\<lparr>m_ins_seq := m_ins_seq (v_ins v) @ [c]\<rparr>\<rparr> else v);
            s1 = (if v_qgapf v
                  then s\<lparr>m_data := (m_data s)[m_seq_off s + unat i := c],
                         m_insertions := m_insertions s @ [v_ins v1]\<rparr>
                  else s);
            v2 = v1\<lparr>v_sgapf := False, v_qgapf := False\<rparr>;
            s2 = s1\<lparr>m_ilas := v_ipos v2\<rparr>;
            v3 = (if m_ifir s2 = 0 then v2\<lparr>v_length := 1\<rparr> else v2);
            s3 = (if m_ifir s2 = 0 then s2\<lparr>m_ifir := v_ipos v2\<rparr>
                  else s2\<lparr>m_gapn := m_gapn s2 + v_gapn v2, m_gaps := m_gaps s2 + v_gaps v2,
                          m_length := v_length v2\<rparr>)
        in ((v3\<lparr>v_gaps := 0, v_gapn := 0, v_ipos := v_ipos v3 + 1, v_jpos := v_jpos v3 + 1\<rparr>,
             s3), c))"

text \<open>One pass of the loop body, for column \<open>i\<close>.\<close>

definition upd_column ::
  "residue_table \<Rightarrow> similarity_matrix \<Rightarrow> seq_impl \<Rightarrow> 32 word \<Rightarrow>
     upd_vars \<times> seq_impl \<Rightarrow> error + upd_vars \<times> seq_impl" where
  "upd_column kResidueIX kD qseq i st =
     (case st of (v, s) \<Rightarrow>
        case buf_read qseq (m_seq_off qseq + unat i) of
          Inl e \<Rightarrow> Inl e
        | Inr qc \<Rightarrow>
            (case buf_read s (m_seq_off s + unat i) of
               Inl e \<Rightarrow> Inl e
             | Inr sc \<Rightarrow>
                 let qgap = is_gap kResidueIX qc; sgap = is_gap kResidueIX sc
                 in if qgap \<and> sgap then Inr (v, s)
                    else
                      let v1 = (if 0 < v_length v then v\<lparr>v_length := v_length v + 1\<rparr> else v)
                      in if sgap then
                           let v2 = (if \<not> (v_sgapf v1 \<or> v_qgapf v1)
                                     then v1\<lparr>v_gaps := v_gaps v1 + 1\<rparr> else v1)
                           in Inr (v2\<lparr>v_sgapf := True, v_gapn := v_gapn v2 + 1,
                                      v_ipos := v_ipos v2 + 1\<rparr>, s)
                         else if qgap then
                           (case upd_qgap kResidueIX sc i (v1, s) of
                              Inl e \<Rightarrow> Inl e
                            | Inr st1 \<Rightarrow> upd_tail kResidueIX kD qc sc i st1)
                         else
                           (case upd_aligned sc i (v1, s) of
                              (st1, c) \<Rightarrow> upd_tail kResidueIX kD qc c i st1)))"

text \<open>The loop over the columns of the query, \<open>k\<close> counting them.\<close>

function upd_loop ::
  "residue_table \<Rightarrow> similarity_matrix \<Rightarrow> seq_impl \<Rightarrow> nat \<Rightarrow>
     upd_vars \<times> seq_impl \<Rightarrow> error + upd_vars \<times> seq_impl" where
  "upd_loop kResidueIX kD qseq k st =
     (if k < unat (m_size qseq) then
        (case upd_column kResidueIX kD qseq (of_nat k) st of
           Inl e \<Rightarrow> Inl e
         | Inr st1 \<Rightarrow> upd_loop kResidueIX kD qseq (Suc k) st1)
      else Inr st)"
  by pat_completeness auto
termination
  by (relation "measure (\<lambda>(kResidueIX, kD, qseq, k, st). unat (m_size qseq) - k)") auto

declare upd_loop.simps [simp del]

text \<open>
  The closing loop, which blanks the row outside the window and writes a dot for every
  gap inside it.
\<close>

fun upd_blank :: "residue_table \<Rightarrow> nat list \<Rightarrow> seq_impl \<Rightarrow> error + seq_impl" where
  "upd_blank kResidueIX [] s = Inr s"
| "upd_blank kResidueIX (i # is) s =
     (let a = m_seq_off s + i
      in if \<not> a < length (m_data s) then Inl OutOfRange
         else if i < unat (m_begin s) \<or> unat (m_end s) \<le> i
         then upd_blank kResidueIX is (s\<lparr>m_data := (m_data s)[a := CHR '' '']\<rparr>)
         else if is_gap kResidueIX (m_data s ! a)
         then upd_blank kResidueIX is (s\<lparr>m_data := (m_data s)[a := CHR ''.'']\<rparr>)
         else upd_blank kResidueIX is s)"

definition upd_finish :: "residue_table \<Rightarrow> seq_impl \<Rightarrow> error + seq_impl" where
  "upd_finish kResidueIX s =
     (if m_begin s = - 1 then Inr (s\<lparr>m_begin := 0, m_end := 0\<rparr>)
      else if \<not> m_begin s \<le> m_size s then Inl AssertionFailed
      else if \<not> m_end s \<le> m_size s then Inl AssertionFailed
      else upd_blank kResidueIX [0 ..< unat (m_size s)] s)"

text \<open>\<open>seq::seq_impl::update(const seq_impl& qseq)\<close>.\<close>

definition update ::
  "residue_table \<Rightarrow> similarity_matrix \<Rightarrow> seq_impl \<Rightarrow> seq_impl \<Rightarrow> error + seq_impl" where
  "update kResidueIX kD qseq s =
     (let v0 = \<lparr>v_ipos = 1, v_jpos = (if m_jfir s = 0 then 1 else m_jfir s),
               v_sgapf = False, v_qgapf = False, v_gapn = 0, v_gaps = 0,
               v_ins = \<lparr>m_ipos = 0, m_jpos = 0, m_ins_seq = []\<rparr>, v_length = 0\<rparr>;
          s0 = s\<lparr>m_ifir := 0, m_similar := 0, m_identical := 0, m_gapn := 0, m_gaps := 0,
                 m_begin := - 1, m_end := 0\<rparr>
      in case upd_loop kResidueIX kD qseq 0 (v0, s0) of
           Inl e \<Rightarrow> Inl e
         | Inr (v, s1) \<Rightarrow> upd_finish kResidueIX s1)"

section \<open>hssp-convert-3to1.cpp: the residue-column profiler\<close>

text \<open>
  \<open>ResidueHInfo\<close> and the part of \<open>Hit\<close> that the profiler reads.  The counters are
  \<open>uint32\<close> in the source and natural numbers here (they count hits, far fewer than
  \<open>2 ^ 32\<close>).  The fields \<open>chain\<close> and \<open>dist\<close> carry a suffix, the fields of \<open>Hit\<close> a
  prefix, to keep them apart from constants of the same name.  The entropy, a sum of
  logarithms, is not part of the model.
\<close>

record ResidueHInfo =
  letter :: char
  chain_h :: char
  dssp :: string
  seqNr :: "32 word"
  pdbNr :: "32 word"
  pos :: "32 word"
  nocc :: nat
  ndel :: nat
  nins :: nat
  consweight :: rat
  dist_h :: "nat list"

record Hit =
  hit_seq :: seq_impl
  hit_qseq :: seq_impl
  hit_chain :: char

text \<open>The first loop over the hits: occupancy and the 20 counters.\<close>

fun cv_count ::
  "residue_table \<Rightarrow> char \<Rightarrow> 32 word \<Rightarrow> Hit list \<Rightarrow> nat \<times> nat list \<Rightarrow> error + nat \<times> nat list" where
  "cv_count kResidueIX c p [] st = Inr st"
| "cv_count kResidueIX c p (h # hs) st =
     (if hit_chain h \<noteq> c then cv_count kResidueIX c p hs st
      else
        case seq_at (hit_seq h) p of
          Inl e \<Rightarrow> Inl e
        | Inr a \<Rightarrow>
            let ix = kResidueIX a
            in if 0 \<le> sint ix then
                 (if nat (sint ix) < length (snd st) then
                    cv_count kResidueIX c p hs
                      (Suc (fst st), (snd st)[nat (sint ix) := Suc (snd st ! nat (sint ix))])
                  else Inl OutOfRange)
               else cv_count kResidueIX c p hs st)"

text \<open>
  \<open>uint32((100.0 * freq) + 0.5)\<close> with \<open>freq = double(dist[a]) / nocc\<close>, for the counter
  \<open>c = dist[a]\<close> and the occupancy \<open>n = nocc\<close>.  The two counters convert to \<open>double\<close>
  without rounding; the quotient, the product and the sum are each rounded to binary64,
  and the conversion to \<open>uint32\<close> drops the fraction.
\<close>

definition percent :: "nat \<Rightarrow> nat \<Rightarrow> nat" where
  "percent c n = nat \<lfloor>dadd (dmul 100 (ddiv (of_nat c) (of_nat n))) (1 / 2)\<rfloor>"

text \<open>The second loop over the hits: deletions and insertions.\<close>

fun cv_indel ::
  "residue_table \<Rightarrow> char \<Rightarrow> 32 word \<Rightarrow> bool \<Rightarrow> Hit list \<Rightarrow> nat \<times> nat \<Rightarrow> error + nat \<times> nat" where
  "cv_indel kResidueIX c p gap [] st = Inr st"
| "cv_indel kResidueIX c p gap (h # hs) st =
     (if hit_chain h \<noteq> c then cv_indel kResidueIX c p gap hs st
      else
        let t = hit_seq h;
            inside = (m_begin t < p \<and> p < m_end t)
        in if inside \<or> gap then
             (case seq_at t p of
                Inl e \<Rightarrow> Inl e
              | Inr a \<Rightarrow>
                  let del = (if inside \<and> is_gap kResidueIX a then Suc (fst st) else fst st);
                      ins = (if gap \<and> 97 \<le> (of_char a :: nat) \<and> (of_char a :: nat) \<le> 121
                             then Suc (snd st) else snd st)
                  in cv_indel kResidueIX c p gap hs (del, ins))
           else cv_indel kResidueIX c p gap hs st)"

text \<open>\<open>ResidueHInfo::CalculateVariability(hit_list& hits)\<close>.\<close>

definition CalculateVariability ::
  "residue_table \<Rightarrow> Hit list \<Rightarrow> ResidueHInfo \<Rightarrow> error + ResidueHInfo" where
  "CalculateVariability kResidueIX hits r =
     (if hits = [] then Inr r
      else
        let ix = kResidueIX (letter r)
        in if 0 \<le> sint ix then
             (if \<not> nat (sint ix) < 20 then Inl OutOfRange
              else
                case cv_count kResidueIX (chain_h r) (pos r) hits
                       (nocc r, (replicate 20 0)[nat (sint ix) := 1]) of
                  Inl e \<Rightarrow> Inl e
                | Inr (n, d) \<Rightarrow>
                    if n = 0 then Inl UndefinedValue
                    else
                      let q = hit_qseq (hd hits);
                          next_gap =
                            (if pos r + 1 < seq_length q then
                               (case seq_at q (pos r + 1) of
                                  Inl e \<Rightarrow> Inl e
                                | Inr a \<Rightarrow> Inr (is_gap kResidueIX a))
                             else Inr False)
                      in case next_gap of
                           Inl e \<Rightarrow> Inl e
                         | Inr gap \<Rightarrow>
                             (case cv_indel kResidueIX (chain_h r) (pos r) gap hits
                                     (ndel r, nins r) of
                                Inl e \<Rightarrow> Inl e
                              | Inr (del, ins) \<Rightarrow>
                                  Inr (r\<lparr>nocc := n, dist_h := map (\<lambda>c. percent c n) d,
                                         ndel := del, nins := ins\<rparr>)))
           else Inr (r\<lparr>dist_h := replicate 20 0\<rparr>))"

section \<open>hssp-convert-3to1.cpp: conservation weighting\<close>

text \<open>
  The worker of \<open>CalculateConservation\<close>, for one worker thread: the queue then hands it
  the rows in increasing order, and its three vectors \<open>sumvar\<close>, \<open>sumdist\<close> and
  \<open>simval\<close> live for the whole run.
\<close>

record cons_vectors =
  sumvar :: "rat list"
  sumdist :: "rat list"
  simval :: "rat list"

text \<open>The first loop over the overlap \<open>[b, e)\<close> of a pair of rows.\<close>

fun pair_scan ::
  "residue_table \<Rightarrow> similarity_matrix \<Rightarrow> seq_impl \<Rightarrow> seq_impl \<Rightarrow> nat list \<Rightarrow>
     nat \<times> nat \<times> rat list \<Rightarrow> error + nat \<times> nat \<times> rat list" where
  "pair_scan kResidueIX kD si sj [] st = Inr st"
| "pair_scan kResidueIX kD si sj (k # ks) st =
     (case st of (len, agr, sv) \<Rightarrow>
        case seq_at si (of_nat k) of
          Inl e \<Rightarrow> Inl e
        | Inr ci \<Rightarrow>
            if is_gap kResidueIX ci then pair_scan kResidueIX kD si sj ks st
            else
              (case seq_at sj (of_nat k) of
                 Inl e \<Rightarrow> Inl e
               | Inr cj \<Rightarrow>
                   if is_gap kResidueIX cj then pair_scan kResidueIX kD si sj ks st
                   else
                     let agr1 = (if ci = cj then Suc agr else agr);
                         ri = kResidueIX ci; rj = kResidueIX cj
                     in if \<not> k < length sv then Inl OutOfRange
                        else if 0 \<le> sint ri \<and> 0 \<le> sint rj
                        then pair_scan kResidueIX kD si sj ks
                               (Suc len, agr1, sv[k := kD (nat (sint ri)) (nat (sint rj))])
                        else pair_scan kResidueIX kD si sj ks (Suc len, agr1, sv[k := FLT_MIN])))"

text \<open>The second loop over the overlap, entered when \<open>len > 0\<close>.\<close>

fun pair_sum :: "rat \<Rightarrow> nat list \<Rightarrow> cons_vectors \<Rightarrow> error + cons_vectors" where
  "pair_sum distance [] w = Inr w"
| "pair_sum distance (k # ks) w =
     (if \<not> k < length (simval w) then Inl OutOfRange
      else if simval w ! k \<noteq> FLT_MIN then
        (if \<not> (k < length (sumvar w) \<and> k < length (sumdist w)) then Inl OutOfRange
         else pair_sum distance ks
                (w\<lparr>sumvar := (sumvar w)[k := fadd (sumvar w ! k) (fmul distance (simval w ! k))],
                   sumdist := (sumdist w)[k := fadd (sumdist w ! k) (fmul distance (3 / 2))]\<rparr>))
      else pair_sum distance ks w)"

text \<open>The body of the loop over \<open>j\<close>, for one pair of rows.\<close>

definition cons_pair ::
  "residue_table \<Rightarrow> similarity_matrix \<Rightarrow> seq_impl \<Rightarrow> seq_impl \<Rightarrow> cons_vectors \<Rightarrow>
     error + cons_vectors" where
  "cons_pair kResidueIX kD si sj w =
     (let b = (if m_begin si < m_begin sj then m_begin sj else m_begin si);
          e = (if m_end si > m_end sj then m_end sj else m_end si);
          ks = [unat b ..< unat e]
      in case pair_scan kResidueIX kD si sj ks (0, 0, simval w) of
           Inl err \<Rightarrow> Inl err
         | Inr (len, agr, sv) \<Rightarrow>
             if 0 < len then
               pair_sum (fsub 1 (fdiv (f32 (of_nat agr)) (f32 (of_nat len)))) ks
                 (w\<lparr>simval := sv\<rparr>)
             else Inr (w\<lparr>simval := sv\<rparr>))"

fun cons_row ::
  "residue_table \<Rightarrow> similarity_matrix \<Rightarrow> seq_impl \<Rightarrow> seq_impl list \<Rightarrow> cons_vectors \<Rightarrow>
     error + cons_vectors" where
  "cons_row kResidueIX kD si [] w = Inr w"
| "cons_row kResidueIX kD si (sj # rest) w =
     (if m_pruned sj then cons_row kResidueIX kD si rest w
      else
        case cons_pair kResidueIX kD si sj w of
          Inl e \<Rightarrow> Inl e
        | Inr w1 \<Rightarrow> cons_row kResidueIX kD si rest w1)"

text \<open>
  The worker's outer loop.  The driver queues row \<open>i\<close> when it is not pruned and is not
  the last row; the list argument is the rest of the MSA from row \<open>i\<close> on.
\<close>

fun cons_worker ::
  "residue_table \<Rightarrow> similarity_matrix \<Rightarrow> seq_impl list \<Rightarrow> cons_vectors \<Rightarrow>
     error + cons_vectors" where
  "cons_worker kResidueIX kD [] w = Inr w"
| "cons_worker kResidueIX kD (si # rest) w =
     (if rest = [] \<or> m_pruned si then cons_worker kResidueIX kD rest w
      else
        case cons_row kResidueIX kD si rest w of
          Inl e \<Rightarrow> Inl e
        | Inr w1 \<Rightarrow> cons_worker kResidueIX kD rest w1)"

text \<open>
  The driver's closing loop over the query columns: \<open>ri\<close> is the index of the iterator
  into \<open>res\<close>; chain-break placeholders (letter 0) are stepped over after each
  assignment.
\<close>

function skip_breaks :: "ResidueHInfo list \<Rightarrow> nat \<Rightarrow> nat" where
  "skip_breaks res ri =
     (if ri < length res \<and> (of_char (letter (res ! ri)) :: nat) = 0
      then skip_breaks res (Suc ri) else ri)"
  by pat_completeness auto
termination
  by (relation "measure (\<lambda>(res, ri). length res - ri)") auto

declare skip_breaks.simps [simp del]

fun cons_assign ::
  "residue_table \<Rightarrow> seq_impl \<Rightarrow> rat list \<Rightarrow> rat list \<Rightarrow> nat list \<Rightarrow>
     ResidueHInfo list \<times> nat \<Rightarrow> error + ResidueHInfo list \<times> nat" where
  "cons_assign kResidueIX s sv sd [] st = Inr st"
| "cons_assign kResidueIX s sv sd (i # is) st =
     (case seq_at s (of_nat i) of
        Inl e \<Rightarrow> Inl e
      | Inr a \<Rightarrow>
          if is_gap kResidueIX a then cons_assign kResidueIX s sv sd is st
          else if \<not> (i < length sd \<and> i < length sv) then Inl OutOfRange
          else
            let weight = (if 0 < sd ! i then fdiv (sv ! i) (sd ! i) else 1)
            in case st of (res, ri) \<Rightarrow>
                 if \<not> ri < length res then Inl OutOfRange
                 else cons_assign kResidueIX s sv sd is
                        (res[ri := (res ! ri)\<lparr>consweight := weight\<rparr>],
                         skip_breaks res (Suc ri)))"

text \<open>
  \<open>CalculateConservation(mseq& msa, ...)\<close>, the driver.  The worker's sums are added to
  the driver's vectors, which hold zeros.
\<close>

definition CalculateConservation ::
  "residue_table \<Rightarrow> similarity_matrix \<Rightarrow> seq_impl list \<Rightarrow> ResidueHInfo list \<Rightarrow>
     error + ResidueHInfo list" where
  "CalculateConservation kResidueIX kD msa res =
     (case msa of
        [] \<Rightarrow> Inl OutOfRange
      | s # rest \<Rightarrow>
          let n = unat (seq_length s);
              w0 = \<lparr>sumvar = replicate n 0, sumdist = replicate n 0, simval = replicate n 0\<rparr>
          in case cons_worker kResidueIX kD msa w0 of
               Inl e \<Rightarrow> Inl e
             | Inr w \<Rightarrow>
                 let sv = map (\<lambda>x. fadd x 0) (sumvar w);
                     sd = map (\<lambda>x. fadd x 0) (sumdist w)
                 in case cons_assign kResidueIX s sv sd [0 ..< n] (res, 0) of
                      Inl e \<Rightarrow> Inl e
                    | Inr (res1, ri) \<Rightarrow>
                        if ri = length res1 then Inr res1 else Inl AssertionFailed)"

text \<open>
  The second constructor of \<open>ResidueHInfo\<close> (the source leaves \<open>dist\<close> and the entropy
  unset; the counters start at zero here), and a hit on a row of the MSA.
\<close>

definition ResidueHInfo_new ::
  "char \<Rightarrow> 32 word \<Rightarrow> char \<Rightarrow> 32 word \<Rightarrow> 32 word \<Rightarrow> string \<Rightarrow> ResidueHInfo" where
  "ResidueHInfo_new a p c sn pn d =
     \<lparr>letter = a, chain_h = c, dssp = d, seqNr = sn, pdbNr = pn, pos = p, nocc = 1,
      ndel = 0, nins = 0, consweight = 1, dist_h = replicate 20 0\<rparr>"

definition hit_of :: "string \<Rightarrow> string \<Rightarrow> char \<Rightarrow> Hit" where
  "hit_of q t c = \<lparr>hit_seq = row_of t, hit_qseq = row_of q, hit_chain = c\<rparr>"

section \<open>mas.cpp: position-specific gap penalties\<close>

text \<open>
  \<open>kResidueSpecificPenalty\<close>: each entry is the difference of two \<open>float\<close> literals.
  The comments of the source give the residue of each index (A R N D C Q E G H I L K M
  F P S T W Y V), which is also the coding of the 20 residues behind
  \<open>encode("DEGKNQPRS")\<close> in \<open>is_hydrophilic\<close>.
\<close>

definition kResidueSpecificPenalty :: "rat list" where
  "kResidueSpecificPenalty =
     map (\<lambda>x. fsub (f32 x) (f32 (1 / 5)))
       [113 / 100, 72 / 100, 63 / 100, 96 / 100, 113 / 100, 107 / 100, 131 / 100, 61 / 100,
        1, 132 / 100, 121 / 100, 96 / 100, 129 / 100, 120 / 100, 74 / 100, 76 / 100,
        89 / 100, 123 / 100, 1, 125 / 100]"

definition is_hydrophilic :: "aa \<Rightarrow> bool" where
  "is_hydrophilic r \<longleftrightarrow> r \<in> set [3, 6, 7, 11, 2, 5, 14, 1, 15]"

text \<open>The three vectors that the first phase of \<open>adjust_gp\<close> fills by inspecting the rows.\<close>

record gp_inspection =
  gaps :: "nat list"
  hydrophilic_stretch :: "bool list"
  residue_specific_penalty :: "rat list"

text \<open>The value added to \<open>residue_specific_penalty[ix]\<close> for one row.\<close>

definition penalty_at :: "entry \<Rightarrow> nat \<Rightarrow> rat" where
  "penalty_at e ix =
     (if ix < length (m_ss e) then
        (if m_ss e ! ix \<in> set ''HGI'' then 3
         else if m_ss e ! ix = CHR ''B'' then 2
         else if m_ss e ! ix = CHR ''E'' then 3 / 2
         else 1)
      else if unat (m_seq e ! ix) < 20 then kResidueSpecificPenalty ! unat (m_seq e ! ix)
      else 1)"

text \<open>
  The search for runs of five hydrophilic residues in one row of \<open>n\<close> columns: \<open>si\<close> is
  the start of the current run and \<open>i\<close> the column under inspection.
\<close>

function hydrophilic_runs :: "sequence \<Rightarrow> nat \<Rightarrow> nat \<Rightarrow> nat \<Rightarrow> bool list \<Rightarrow> bool list" where
  "hydrophilic_runs s n si i stretch =
     (if i \<le> n then
        (if i = n \<or> \<not> is_hydrophilic (s ! i) then
           hydrophilic_runs s n (Suc i) (Suc i)
             (if si + 5 \<le> i
              then map (\<lambda>j. if si \<le> j \<and> j < i then True else stretch ! j) [0 ..< length stretch]
              else stretch)
         else hydrophilic_runs s n si (Suc i) stretch)
      else stretch)"
  by pat_completeness auto
termination
  by (relation "measure (\<lambda>(s, n, si, i, stretch). Suc n - i)") auto

declare hydrophilic_runs.simps [simp del]

text \<open>The body of the loop over the rows.\<close>

definition inspect_row :: "aa \<Rightarrow> nat \<Rightarrow> entry \<Rightarrow> gp_inspection \<Rightarrow> gp_inspection" where
  "inspect_row kSignalGapCode n e v =
     \<lparr>gaps = map (\<lambda>ix. if m_seq e ! ix = kSignalGapCode then Suc (gaps v ! ix) else gaps v ! ix)
               [0 ..< n],
      hydrophilic_stretch = hydrophilic_runs (m_seq e) n 0 0 (hydrophilic_stretch v),
      residue_specific_penalty =
        map (\<lambda>ix. fadd (residue_specific_penalty v ! ix) (penalty_at e ix)) [0 ..< n]\<rparr>"

definition inspect_rows :: "aa \<Rightarrow> nat \<Rightarrow> entry list \<Rightarrow> gp_inspection" where
  "inspect_rows kSignalGapCode n seq =
     fold (inspect_row kSignalGapCode n) seq
       \<lparr>gaps = replicate n 0, hydrophilic_stretch = replicate n False,
        residue_specific_penalty = replicate n 0\<rparr>"

text \<open>
  The loop \<open>for (d = 0; d < 8; ++d)\<close> with its \<open>break\<close>: the first \<open>d\<close> at which the
  condition holds, if there is one.
\<close>

function near_gap :: "nat list \<Rightarrow> nat \<Rightarrow> nat \<Rightarrow> nat option" where
  "near_gap gs ix d =
     (if d < 8 then
        (if length gs \<le> ix + d \<or> 0 < gs ! (ix + d) \<or> ix < d \<or> 0 < gs ! (ix - d)
         then Some d else near_gap gs ix (Suc d))
      else None)"
  by pat_completeness auto
termination
  by (relation "measure (\<lambda>(gs, ix, d). 8 - d)") auto

declare near_gap.simps [simp del]

text \<open>The new value of \<open>gop[ix]\<close> and of \<open>gep[ix]\<close>, for \<open>rows\<close> rows.\<close>

definition adjust_gop :: "nat \<Rightarrow> gp_inspection \<Rightarrow> nat \<Rightarrow> rat \<Rightarrow> rat" where
  "adjust_gop rows v ix g =
     (if 0 < gaps v ! ix then
        fmul g (fmul (f32 (3 / 10))
                  (fdiv (f32 (of_nat (rows - gaps v ! ix))) (f32 (of_nat rows))))
      else
        let g1 = (case near_gap (gaps v) ix 0 of
                    Some d \<Rightarrow> fmul g (fdiv (of_nat (2 + (8 - d) * 2)) 8)
                  | None \<Rightarrow> g)
        in if hydrophilic_stretch v ! ix then fdiv g1 3
           else fmul g1 (fdiv (residue_specific_penalty v ! ix) (f32 (of_nat rows))))"

definition adjust_gep :: "gp_inspection \<Rightarrow> nat \<Rightarrow> rat \<Rightarrow> rat" where
  "adjust_gep v ix e = (if ix < length (gaps v) \<and> 0 < gaps v ! ix then fdiv e 2 else e)"

text \<open>
  \<open>adjust_gp(gop, gep, seq)\<close>: the new \<open>gop\<close> and \<open>gep\<close>.  The rows are passed by
  reference to constant and are not part of the result.  A row shorter than \<open>gop\<close>, an
  empty row set and a \<open>gep\<close> that is too short for a gapped column are reads out of
  range.
\<close>

definition adjust_gp ::
  "aa \<Rightarrow> rat list \<Rightarrow> rat list \<Rightarrow> entry list \<Rightarrow> error + rat list \<times> rat list" where
  "adjust_gp kSignalGapCode gop gep seq =
     (case seq of
        [] \<Rightarrow> Inl OutOfRange
      | front # rest \<Rightarrow>
          if length gop \<noteq> length (m_seq front) then Inl AssertionFailed
          else if list_ex (\<lambda>e. length (m_seq e) < length gop) seq then Inl OutOfRange
          else
            let v = inspect_rows kSignalGapCode (length gop) seq
            in if list_ex (\<lambda>ix. 0 < gaps v ! ix \<and> length gep \<le> ix) [0 ..< length gop]
               then Inl OutOfRange
               else Inr (map (\<lambda>ix. adjust_gop (length seq) v ix (gop ! ix)) [0 ..< length gop],
                         map (\<lambda>ix. adjust_gep v ix (gep ! ix)) [0 ..< length gep]))"

text \<open>
  An entry that has only a sequence, and the two notions in which the properties of
  \<open>adjust_gp\<close> are stated: \<open>near_trigger\<close> is the condition of the loop over \<open>d\<close> read on
  the rows themselves (the column at distance \<open>d\<close> to the right or to the left lies
  outside the vector or has a gap in some row), and \<open>residue_rule\<close> is the step that
  follows that loop (the hydrophilic rule or the residue-specific rule).
\<close>

definition plain_entry :: "sequence \<Rightarrow> entry" where
  "plain_entry s = \<lparr>m_nr = 0, m_id = [], m_seq = s, m_positions = [], m_ss = []\<rparr>"

definition near_trigger :: "aa \<Rightarrow> entry list \<Rightarrow> nat \<Rightarrow> nat \<Rightarrow> nat \<Rightarrow> bool" where
  "near_trigger g seq n ix d \<longleftrightarrow>
     n \<le> ix + d \<or> list_ex (\<lambda>e. m_seq e ! (ix + d) = g) seq \<or>
     ix < d \<or> list_ex (\<lambda>e. m_seq e ! (ix - d) = g) seq"

definition residue_rule :: "nat \<Rightarrow> gp_inspection \<Rightarrow> nat \<Rightarrow> rat \<Rightarrow> rat" where
  "residue_rule rows v ix g1 =
     (if hydrophilic_stretch v ! ix then fdiv g1 3
      else fmul g1 (fdiv (residue_specific_penalty v ! ix) (f32 (of_nat rows))))"

section \<open>mas.cpp: the pairwise distance kernel\<close>

text \<open>
  The substitution matrix \<open>kDistanceMatrix("GONNET250")\<close> is read from a resource that
  is not part of the sources at hand; \<open>calculateDistance\<close> takes it as the parameter
  \<open>mat\<close>, a function from two residue codes to the \<open>int32\<close> that \<open>operator()\<close> returns.
  The four matrices \<open>B\<close>, \<open>Ix\<close>, \<open>Iy\<close> and \<open>id\<close> are functions from a cell to its
  content, \<open>id\<close> and \<open>highId\<close> are 16-bit words as in the source.
\<close>

type_synonym substitution_matrix = "aa \<Rightarrow> aa \<Rightarrow> int"

record dp_state =
  dp_B :: "nat \<times> nat \<Rightarrow> rat"
  dp_Ix :: "nat \<times> nat \<Rightarrow> rat"
  dp_Iy :: "nat \<times> nat \<Rightarrow> rat"
  dp_id :: "nat \<times> nat \<Rightarrow> 16 word"
  dp_high :: rat
  dp_highIdSub :: "16 word"

definition kDistanceGapOpen :: rat where
  "kDistanceGapOpen = 10"

definition kDistanceGapExtend :: rat where
  "kDistanceGapExtend = f32 (1 / 5)"

text \<open>\<open>numeric_limits<float>::max()\<close>.\<close>

definition FLT_MAX :: rat where
  "FLT_MAX = (2 ^ 24 - 1) * 2 ^ 104"

text \<open>
  The loop body for the cell \<open>(x, y)\<close> of the rectangle that starts at \<open>(sX, sY)\<close> and
  ends before \<open>(eX, eY)\<close>, once \<open>Ix1\<close>, \<open>Iy1\<close> and \<open>M\<close> are known.  \<open>dp_score\<close> is the value
  \<open>s\<close> and \<open>dp_count\<close> the count \<open>i\<close> that the three-way choice leaves; \<open>same\<close> tells
  whether the two residues are identical, in which case \<open>i\<close> starts at 1 whatever the branch.
\<close>

definition dp_score :: "rat \<Rightarrow> rat \<Rightarrow> rat \<Rightarrow> rat" where
  "dp_score Ix1 Iy1 M =
     (if Ix1 \<le> M \<and> Iy1 \<le> M then M else if Iy1 \<le> Ix1 then Ix1 else Iy1)"

definition dp_count ::
  "nat \<Rightarrow> nat \<Rightarrow> nat \<Rightarrow> nat \<Rightarrow> bool \<Rightarrow> rat \<Rightarrow> rat \<Rightarrow> rat \<Rightarrow> (nat \<times> nat \<Rightarrow> 16 word) \<Rightarrow> 16 word" where
  "dp_count sX sY x y same Ix1 Iy1 M idm =
     (if Ix1 \<le> M \<and> Iy1 \<le> M
      then (if sX < x \<and> sY < y then (if same then 1 else 0) + idm (x - 1, y - 1)
            else (if same then 1 else 0))
      else if Iy1 \<le> Ix1
      then (if sX < x then (if same then 1 else 0) + idm (x - 1, y)
            else (if same then 1 else 0))
      else (if sY < y then (if same then 1 else 0) + idm (x, y - 1)
            else (if same then 1 else 0)))"

text \<open>
  The writes of the loop body: \<open>B\<close>, \<open>id\<close>, the running maximum over the last row and the
  last column (\<open>border\<close> is the outcome of its test), \<open>Ix\<close> and \<open>Iy\<close>.
\<close>

definition dp_write ::
  "nat \<Rightarrow> nat \<Rightarrow> bool \<Rightarrow> rat \<Rightarrow> 16 word \<Rightarrow> rat \<Rightarrow> rat \<Rightarrow> dp_state \<Rightarrow> dp_state" where
  "dp_write x y border s i ix iy st =
     \<lparr>dp_B = (dp_B st)((x, y) := s),
      dp_Ix = (dp_Ix st)((x, y) := ix),
      dp_Iy = (dp_Iy st)((x, y) := iy),
      dp_id = (dp_id st)((x, y) := i),
      dp_high = (if border then s else dp_high st),
      dp_highIdSub = (if border then i else dp_highIdSub st)\<rparr>"

definition dp_store ::
  "nat \<Rightarrow> nat \<Rightarrow> nat \<Rightarrow> nat \<Rightarrow> nat \<Rightarrow> nat \<Rightarrow> bool \<Rightarrow> rat \<Rightarrow> rat \<Rightarrow> rat \<Rightarrow> dp_state \<Rightarrow> dp_state" where
  "dp_store sX sY eX eY x y same Ix1 Iy1 M st =
     dp_write x y
       ((x = eX - 1 \<or> y = eY - 1) \<and> dp_high st < dp_score Ix1 Iy1 M)
       (dp_score Ix1 Iy1 M)
       (dp_count sX sY x y same Ix1 Iy1 M (dp_id st))
       (max (fsub M kDistanceGapOpen) (fsub Ix1 kDistanceGapExtend))
       (max (fsub M kDistanceGapOpen) (fsub Iy1 kDistanceGapExtend))
       st"

text \<open>
  The body of the two nested loops over the rectangle: the reads of \<open>Ix1\<close>, \<open>Iy1\<close> and
  \<open>M\<close> for the cell \<open>c = (x, y)\<close>.
\<close>

definition dp_read_M ::
  "substitution_matrix \<Rightarrow> sequence \<Rightarrow> sequence \<Rightarrow> nat \<Rightarrow> nat \<Rightarrow> nat \<Rightarrow> nat \<Rightarrow> dp_state \<Rightarrow> rat" where
  "dp_read_M mat a b sX sY x y st =
     (if sX < x \<and> sY < y
      then fadd (f32 (of_int (mat (a ! x) (b ! y)))) (dp_B st (x - 1, y - 1))
      else f32 (of_int (mat (a ! x) (b ! y))))"

definition dp_cell ::
  "substitution_matrix \<Rightarrow> sequence \<Rightarrow> sequence \<Rightarrow> nat \<Rightarrow> nat \<Rightarrow> nat \<Rightarrow> nat \<Rightarrow>
     nat \<times> nat \<Rightarrow> dp_state \<Rightarrow> dp_state" where
  "dp_cell mat a b sX sY eX eY c st =
     dp_store sX sY eX eY (fst c) (snd c) (a ! fst c = b ! snd c)
       (if sX < fst c then dp_Ix st (fst c - 1, snd c) else 0)
       (if sY < snd c then dp_Iy st (fst c, snd c - 1) else 0)
       (dp_read_M mat a b sX sY (fst c) (snd c) st)
       st"

text \<open>The cells of the rectangle in the order of the two loops.\<close>

definition dp_cells :: "nat \<Rightarrow> nat \<Rightarrow> nat \<Rightarrow> nat \<Rightarrow> (nat \<times> nat) list" where
  "dp_cells sX sY eX eY = concat (map (\<lambda>x. map (\<lambda>y. (x, y)) [sY ..< eY]) [sX ..< eX])"

text \<open>
  The two inner loops that move one end of the window past smaller positions, and the
  loop around them that moves the window to the next anchor.  Positions are compared as
  signed 16-bit numbers.
\<close>

function skip_x :: "16 word list \<Rightarrow> 16 word list \<Rightarrow> nat \<Rightarrow> nat \<Rightarrow> nat \<Rightarrow> nat \<Rightarrow> nat" where
  "skip_x pa pb dimX dimY endX endY =
     (if endX < dimX \<and> (endY = dimY \<or> sint (pa ! endX) < sint (pb ! endY))
      then skip_x pa pb dimX dimY (Suc endX) endY else endX)"
  by pat_completeness auto
termination
  by (relation "measure (\<lambda>(pa, pb, dimX, dimY, endX, endY). dimX - endX)") auto

function skip_y :: "16 word list \<Rightarrow> 16 word list \<Rightarrow> nat \<Rightarrow> nat \<Rightarrow> nat \<Rightarrow> nat \<Rightarrow> nat" where
  "skip_y pa pb dimX dimY endX endY =
     (if endY < dimY \<and> (endX = dimX \<or> sint (pb ! endY) < sint (pa ! endX))
      then skip_y pa pb dimX dimY endX (Suc endY) else endY)"
  by pat_completeness auto
termination
  by (relation "measure (\<lambda>(pa, pb, dimX, dimY, endX, endY). dimY - endY)") auto

declare skip_x.simps [simp del] skip_y.simps [simp del]

text \<open>
  A turn of the window loop that reaches \<open>continue\<close> without having moved the window
  would repeat for ever; it is the error \<open>Diverges\<close>.
\<close>

function window_loop ::
  "16 word list \<Rightarrow> 16 word list \<Rightarrow> nat \<Rightarrow> nat \<Rightarrow> nat \<Rightarrow> nat \<Rightarrow> error + nat \<times> nat" where
  "window_loop pa pb dimX dimY endX endY =
     (if endX < dimX \<or> endY < dimY then
        (if endX < dimX \<and> pa ! endX = 0 then window_loop pa pb dimX dimY (Suc endX) endY
         else if endY < dimY \<and> pb ! endY = 0 then window_loop pa pb dimX dimY endX (Suc endY)
         else if endX < dimX \<and> endY < dimY \<and> pa ! endX = pb ! endY \<and> pa ! endX \<noteq> 0
         then Inr (endX, endY)
         else
           let ex = (if endX < dimX then skip_x pa pb dimX dimY endX endY else endX);
               ey = (if endY < dimY then skip_y pa pb dimX dimY ex endY else endY)
           in if ex < dimX \<and> ey < dimY \<and> pa ! ex \<noteq> pb ! ey then
                (if endX + endY < ex + ey then window_loop pa pb dimX dimY ex ey
                 else Inl Diverges)
              else Inr (ex, ey))
      else Inr (endX, endY))"
  by pat_completeness auto
termination
  by (relation "measure (\<lambda>(pa, pb, dimX, dimY, endX, endY). (dimX - endX) + (dimY - endY))")
    auto

declare window_loop.simps [simp del]

text \<open>
  The matrices as they are before the first write, and the four statements between the
  window loop and the rectangle: \<open>Ix(x, y) = 0\<close>, \<open>Iy(x, y) = 0\<close>, the seeding of
  \<open>id(x - 1, y - 1)\<close> with \<open>highId\<close>, and the initial values of \<open>high\<close> and \<open>highIdSub\<close>.
\<close>

definition dp_init :: dp_state where
  "dp_init = \<lparr>dp_B = (\<lambda>c. 0), dp_Ix = (\<lambda>c. 0), dp_Iy = (\<lambda>c. 0), dp_id = (\<lambda>c. 0),
               dp_high = 0, dp_highIdSub = 0\<rparr>"

definition dp_enter :: "nat \<Rightarrow> nat \<Rightarrow> 16 word \<Rightarrow> dp_state \<Rightarrow> dp_state" where
  "dp_enter x y highId st =
     \<lparr>dp_B = dp_B st,
      dp_Ix = (dp_Ix st)((x, y) := 0),
      dp_Iy = (dp_Iy st)((x, y) := 0),
      dp_id = (if 0 < x \<and> 0 < y then (dp_id st)((x - 1, y - 1) := highId) else dp_id st),
      dp_high = - FLT_MAX,
      dp_highIdSub = 0\<rparr>"

text \<open>
  The outer loop \<open>while (x < dimX and y < dimY)\<close>.  After the rectangle has been filled
  the source continues at \<open>(endX, endY)\<close>; a window that has not moved would repeat the
  same turn for ever (\<open>Diverges\<close>).
\<close>

function dist_loop ::
  "substitution_matrix \<Rightarrow> sequence \<Rightarrow> sequence \<Rightarrow> 16 word list \<Rightarrow> 16 word list \<Rightarrow>
     nat \<Rightarrow> nat \<Rightarrow> nat \<Rightarrow> nat \<Rightarrow> 16 word \<Rightarrow> dp_state \<Rightarrow> error + 16 word" where
  "dist_loop mat a b pa pb x y endX endY highId st =
     (if x < length a \<and> y < length b then
        (if x = endX \<and> y = endY \<and> pa ! x = pb ! y \<and> pa ! x \<noteq> 0 then
           dist_loop mat a b pa pb (Suc x) (Suc y) (Suc endX) (Suc endY)
             (if a ! x = b ! y then highId + 1 else highId) st
         else
           case window_loop pa pb (length a) (length b) endX endY of
             Inl e \<Rightarrow> Inl e
           | Inr (eX, eY) \<Rightarrow>
               if x \<le> eX \<and> y \<le> eY \<and> x + y < eX + eY then
                 (let st2 = fold (dp_cell mat a b x y eX eY) (dp_cells x y eX eY)
                              (dp_enter x y highId st)
                  in dist_loop mat a b pa pb eX eY eX eY (highId + dp_highIdSub st2) st2)
               else Inl Diverges)
      else Inr highId)"
  by pat_completeness auto
termination
  by (relation "measure (\<lambda>(mat, a, b, pa, pb, x, y, endX, endY, highId, st).
        (length a - x) + (length b - y))") auto

declare dist_loop.simps [simp del]

text \<open>
  The accumulated count \<open>highId\<close>.  The source starts by writing the cell \<open>(0, 0)\<close> of
  \<open>Ix\<close> and \<open>Iy\<close>, which does not exist when one of the sequences is empty.  The data
  model keeps a positions vector as long as its sequence; when both vectors are present,
  one that is shorter is read out of range once the scan reaches its end, and is refused
  here at once.
\<close>

definition distance_highId :: "substitution_matrix \<Rightarrow> entry \<Rightarrow> entry \<Rightarrow> error + 16 word" where
  "distance_highId mat a b =
     (let dimX = length (m_seq a); dimY = length (m_seq b);
          pa = m_positions a; pb = m_positions b
      in if dimX = 0 \<or> dimY = 0 then Inl OutOfRange
         else if pa = [] \<or> pb = [] then
           dist_loop mat (m_seq a) (m_seq b) pa pb 0 0 dimX dimY 0 dp_init
         else if length pa < dimX \<or> length pb < dimY then Inl OutOfRange
         else dist_loop mat (m_seq a) (m_seq b) pa pb 0 0 0 0 0 dp_init)"

text \<open>
  The value of \<open>1.0f - float(highId) / max(dimX, dimY)\<close>, and
  \<open>calculateDistance(const entry& a, const entry& b)\<close> in a build with assertions.
\<close>

definition distance_value :: "16 word \<Rightarrow> nat \<Rightarrow> nat \<Rightarrow> rat" where
  "distance_value highId dimX dimY =
     fsub 1 (fdiv (f32 (of_nat (unat highId))) (f32 (of_nat (max dimX dimY))))"

definition calculateDistance :: "substitution_matrix \<Rightarrow> entry \<Rightarrow> entry \<Rightarrow> error + rat" where
  "calculateDistance mat a b =
     (case distance_highId mat a b of
        Inl e \<Rightarrow> Inl e
      | Inr highId \<Rightarrow>
          if \<not> 0 \<le> distance_value highId (length (m_seq a)) (length (m_seq b))
          then Inl AssertionFailed
          else if \<not> distance_value highId (length (m_seq a)) (length (m_seq b)) \<le> 1
          then Inl AssertionFailed
          else Inr (distance_value highId (length (m_seq a)) (length (m_seq b))))"

text \<open>
  The entries of the Gonnet PAM 250 matrix for arginine (code 14), tyrosine (code 6) and
  proline (code 9), in tenths as the matrix is distributed: R-R 4.7, Y-Y 7.8, P-P 7.6,
  R-Y -1.8, R-P -0.9 and Y-P -3.1.  The other entries are not needed below and are 0 here.
\<close>

definition gonnet250_RYP :: substitution_matrix where
  "gonnet250_RYP p q =
     (if p = 14 \<and> q = 14 then 47
      else if p = 6 \<and> q = 6 then 78
      else if p = 9 \<and> q = 9 then 76
      else if (p = 14 \<and> q = 6) \<or> (p = 6 \<and> q = 14) then - 18
      else if (p = 14 \<and> q = 9) \<or> (p = 9 \<and> q = 14) then - 9
      else if (p = 6 \<and> q = 9) \<or> (p = 9 \<and> q = 6) then - 31
      else 0)"

text \<open>The sequences RYYYPR and RPYPPR as unaligned entries, without positions.\<close>

definition seq_RYYYPR :: sequence where
  "seq_RYYYPR = [14, 6, 6, 6, 9, 14]"

definition seq_RPYPPR :: sequence where
  "seq_RPYPPR = [14, 9, 6, 9, 9, 14]"

section \<open>Properties of the sequence container\<close>

lemma find_from_props:
  "i \<le> length xs \<Longrightarrow>
     i \<le> find_from xs v i \<and> find_from xs v i \<le> length xs \<and>
     (\<forall>k. i \<le> k \<and> k < find_from xs v i \<longrightarrow> xs ! k \<noteq> v) \<and>
     (find_from xs v i < length xs \<longrightarrow> xs ! find_from xs v i = v)"
proof (induction xs v i rule: find_from.induct)
  case (1 xs v i)
  show ?case
  proof (cases "i < length xs")
    case False
    then have "find_from xs v i = length xs"
      by (simp add: find_from.simps [of xs v i])
    with "1.prems" False show ?thesis by auto
  next
    case inside: True
    show ?thesis
    proof (cases "xs ! i = v")
      case True
      with inside show ?thesis by (auto simp: find_from.simps [of xs v i])
    next
      case False
      from inside have "Suc i \<le> length xs" by simp
      from "1.IH" [OF inside False this] have ih:
        "Suc i \<le> find_from xs v (Suc i)" "find_from xs v (Suc i) \<le> length xs"
        "\<forall>k. Suc i \<le> k \<and> k < find_from xs v (Suc i) \<longrightarrow> xs ! k \<noteq> v"
        "find_from xs v (Suc i) < length xs \<longrightarrow> xs ! find_from xs v (Suc i) = v"
        by auto
      have eq: "find_from xs v i = find_from xs v (Suc i)"
        using inside False by (simp add: find_from.simps [of xs v i])
      have "\<forall>k. i \<le> k \<and> k < find_from xs v (Suc i) \<longrightarrow> xs ! k \<noteq> v"
      proof (intro allI impI)
        fix k assume k: "i \<le> k \<and> k < find_from xs v (Suc i)"
        show "xs ! k \<noteq> v"
        proof (cases "k = i")
          case True
          with False show ?thesis by simp
        next
          case False
          with k have "Suc i \<le> k" by simp
          with k ih(3) show ?thesis by blast
        qed
      qed
      with ih eq show ?thesis by simp
    qed
  qed
qed

lemma filter_take_no_match:
  "n \<le> length xs \<Longrightarrow> \<forall>k<n. xs ! k \<noteq> v \<Longrightarrow> filter (\<lambda>r. r \<noteq> v) (take n xs) = take n xs"
proof (rule filter_True, rule ballI)
  fix x assume n: "n \<le> length xs" and nm: "\<forall>k<n. xs ! k \<noteq> v" and x: "x \<in> set (take n xs)"
  from x obtain k where "k < length (take n xs)" "take n xs ! k = x"
    by (auto simp: in_set_conv_nth)
  with n have "k < n" "xs ! k = x" by simp_all
  with nm show "x \<noteq> v" by blast
qed

lemma remove_from_filter:
  "first \<le> i \<Longrightarrow> i \<le> length xs \<Longrightarrow>
     (case remove_from xs v first i of (ys, l) \<Rightarrow> take l ys) =
       take first xs @ filter (\<lambda>r. r \<noteq> v) (drop i xs)"
proof (induction xs v first i rule: remove_from.induct)
  case (1 xs v first i)
  show ?case
  proof (cases "i < length xs")
    case False
    then have "remove_from xs v first i = (xs, first)"
      by (simp add: remove_from.simps [of xs v first i])
    with "1.prems" False show ?thesis by simp
  next
    case inside: True
    then have dr: "drop i xs = xs ! i # drop (Suc i) xs"
      by (simp add: Cons_nth_drop_Suc)
    show ?thesis
    proof (cases "xs ! i \<noteq> v")
      case True
      let ?xs = "xs[first := xs ! i]"
      have "(case remove_from ?xs v (Suc first) (Suc i) of (ys, l) \<Rightarrow> take l ys) =
              take (Suc first) ?xs @ filter (\<lambda>r. r \<noteq> v) (drop (Suc i) ?xs)"
        using "1.IH"(1) [OF inside True] "1.prems" inside by simp
      moreover have "take (Suc first) ?xs = take first xs @ [xs ! i]"
        using "1.prems" inside by (simp add: take_Suc_conv_app_nth)
      moreover have "drop (Suc i) ?xs = drop (Suc i) xs"
        using "1.prems" by simp
      moreover have "remove_from xs v first i = remove_from ?xs v (Suc first) (Suc i)"
        using inside True by (simp add: remove_from.simps [of xs v first i])
      ultimately show ?thesis
        using True dr by simp
    next
      case False
      then have eqv: "xs ! i = v" by simp
      have "(case remove_from xs v first (Suc i) of (ys, l) \<Rightarrow> take l ys) =
              take first xs @ filter (\<lambda>r. r \<noteq> v) (drop (Suc i) xs)"
        using "1.IH"(2) [OF inside] eqv "1.prems" inside by simp
      moreover have "remove_from xs v first i = remove_from xs v first (Suc i)"
        using inside eqv by (simp add: remove_from.simps [of xs v first i])
      ultimately show ?thesis
        using eqv dr by simp
    qed
  qed
qed

lemma erase_remove_filter: "erase_remove xs v = filter (\<lambda>r. r \<noteq> v) xs"
proof -
  let ?f = "find_from xs v 0"
  from find_from_props [of 0 xs v] have fp:
    "?f \<le> length xs" "\<forall>k. k < ?f \<longrightarrow> xs ! k \<noteq> v" "?f < length xs \<longrightarrow> xs ! ?f = v"
    by auto
  have pre: "filter (\<lambda>r. r \<noteq> v) (take ?f xs) = take ?f xs"
    using fp(1,2) by (intro filter_take_no_match) auto
  show ?thesis
  proof (cases "?f = length xs")
    case True
    with pre show ?thesis
      by (simp add: erase_remove_def std_remove_def)
  next
    case False
    with fp have lt: "?f < length xs" and hit: "xs ! ?f = v" by auto
    have "erase_remove xs v =
            (case remove_from xs v ?f (Suc ?f) of (ys, l) \<Rightarrow> take l ys)"
      using False by (simp add: erase_remove_def std_remove_def Let_def)
    also have "\<dots> = take ?f xs @ filter (\<lambda>r. r \<noteq> v) (drop (Suc ?f) xs)"
      using lt by (intro remove_from_filter) auto
    also have "\<dots> = filter (\<lambda>r. r \<noteq> v) (take ?f xs @ drop ?f xs)"
      using pre hit lt by (simp add: Cons_nth_drop_Suc [symmetric] del: append_take_drop_id)
    finally show ?thesis by simp
  qed
qed

subsection \<open>insert_gap\<close>

text \<open>
  C7.  On an entry whose positions vector is absent (empty) or as long as its sequence,
  \<open>insert_gap(pos)\<close> succeeds and inserts exactly one gap code at index \<open>pos\<close>, at the
  end when \<open>pos\<close> exceeds the length; a present positions vector receives a 0 at the
  same index and is as long as the sequence afterwards; an absent one stays absent.
\<close>

theorem insert_gap_splices:
  assumes "m_positions e = [] \<or> length (m_positions e) = length (m_seq e)"
  shows "insert_gap g p e =
           Inr (e\<lparr>m_seq := take (unat p) (m_seq e) @ [g] @ drop (unat p) (m_seq e),
                  m_positions :=
                    (if m_positions e = [] then []
                     else take (unat p) (m_positions e) @ [0] @
                          drop (unat p) (m_positions e))\<rparr>) \<and>
         (length (m_seq e) < unat p \<longrightarrow>
            take (unat p) (m_seq e) @ [g] @ drop (unat p) (m_seq e) = m_seq e @ [g]) \<and>
         length (take (unat p) (m_seq e) @ [g] @ drop (unat p) (m_seq e)) =
           Suc (length (m_seq e)) \<and>
         (m_positions e \<noteq> [] \<longrightarrow>
            length (take (unat p) (m_positions e) @ [0] @ drop (unat p) (m_positions e)) =
              length (take (unat p) (m_seq e) @ [g] @ drop (unat p) (m_seq e)))"
proof (cases "length (m_seq e) < unat p")
  case True
  with assms show ?thesis
    by (auto simp: insert_gap_def positions_assert_def)
next
  case False
  with assms show ?thesis
    by (auto simp: insert_gap_def positions_assert_def)
qed

theorem insert_gap_splices_witness:
  "insert_gap 24 1 \<lparr>m_nr = 0, m_id = ''q'', m_seq = [0, 1], m_positions = [5, 6], m_ss = ''''\<rparr>
     = Inr \<lparr>m_nr = 0, m_id = ''q'', m_seq = [0, 24, 1], m_positions = [5, 0, 6], m_ss = ''''\<rparr>"
  using insert_gap_splices
    [of "\<lparr>m_nr = 0, m_id = ''q'', m_seq = [0, 1], m_positions = [5, 6], m_ss = ''''\<rparr>" 24 1]
  by simp

subsection \<open>remove_gaps\<close>

text \<open>
  C10.  \<open>remove_gaps\<close> fails its assertion exactly when the sequence and the positions
  vector have the same length, which includes the entry with an empty sequence and no
  positions; otherwise it succeeds, the new sequence is the old one without its gap
  codes, in the old order, and nothing else of the entry changes.
\<close>

theorem remove_gaps_forbidden_iff:
  "(remove_gaps g e = Inl AssertionFailed \<longleftrightarrow> length (m_seq e) = length (m_positions e)) \<and>
   (m_seq e = [] \<and> m_positions e = [] \<longrightarrow> remove_gaps g e = Inl AssertionFailed) \<and>
   (length (m_seq e) \<noteq> length (m_positions e) \<longrightarrow>
      remove_gaps g e = Inr (e\<lparr>m_seq := filter (\<lambda>r. r \<noteq> g) (m_seq e)\<rparr>))"
  by (simp add: remove_gaps_def erase_remove_filter)

theorem remove_gaps_forbidden_iff_witness:
  "remove_gaps 24 \<lparr>m_nr = 0, m_id = ''q'', m_seq = [], m_positions = [], m_ss = ''''\<rparr>
     = Inl AssertionFailed \<and>
   remove_gaps 24 \<lparr>m_nr = 0, m_id = ''q'', m_seq = [24, 3, 24, 24, 7], m_positions = [], m_ss = ''''\<rparr>
     = Inr \<lparr>m_nr = 0, m_id = ''q'', m_seq = [3, 7], m_positions = [], m_ss = ''''\<rparr>"
  using remove_gaps_forbidden_iff
    [of 24 "\<lparr>m_nr = 0, m_id = ''q'', m_seq = [], m_positions = [], m_ss = ''''\<rparr>"]
    remove_gaps_forbidden_iff
    [of 24 "\<lparr>m_nr = 0, m_id = ''q'', m_seq = [24, 3, 24, 24, 7], m_positions = [], m_ss = ''''\<rparr>"]
  by simp

subsection \<open>cut\<close>

text \<open>
  \<open>cut\<close> has one caller, the loader of the alignment, which cuts every row to the part
  that covers the chain before any row is passed to \<open>update\<close>.  The rows it cuts are as
  the constructor and \<open>append\<close> leave them: the window starts at 0 and ends at the size.
\<close>

lemma row_of_window: "m_begin (row_of text) = 0 \<and> window_ok (row_of text)"
  by (simp add: row_of_def window_ok_def)



text \<open>
  The hypothesis on the start of the window is needed in the model: \<open>cut\<close> clamps
  \<open>m_end\<close> to the new size but not \<open>m_begin\<close>, so a window that starts beyond the part
  that is kept would be left with \<open>m_begin > m_end\<close>.  Such a row does not reach \<open>cut\<close>
  in this program: \<open>update\<close>, the only writer of a start other than 0, runs after the
  cut.
\<close>

lemma cut_window_beyond_cut:
  "window_ok
     \<lparr>m_ifir = 0, m_ilas = 0, m_jfir = 0, m_jlas = 0, m_length = 0, m_identical = 0,
      m_similar = 0, m_begin = 8, m_end = 9, m_gaps = 0, m_gapn = 0, m_insertions = [],
      m_data = ''AAAAAAAACA'', m_seq_off = 0, m_size = 10, m_space = 10, m_pruned = False\<rparr> \<and>
   cut 0 5
     \<lparr>m_ifir = 0, m_ilas = 0, m_jfir = 0, m_jlas = 0, m_length = 0, m_identical = 0,
      m_similar = 0, m_begin = 8, m_end = 9, m_gaps = 0, m_gapn = 0, m_insertions = [],
      m_data = ''AAAAAAAACA'', m_seq_off = 0, m_size = 10, m_space = 10, m_pruned = False\<rparr>
   = Inr
     \<lparr>m_ifir = 0, m_ilas = 0, m_jfir = 0, m_jlas = 0, m_length = 0, m_identical = 0,
      m_similar = 0, m_begin = 8, m_end = 5, m_gaps = 0, m_gapn = 0, m_insertions = [],
      m_data = ''AAAAAAAACA'', m_seq_off = 0, m_size = 5, m_space = 10, m_pruned = False\<rparr>"
  by (simp add: cut_def window_ok_def)

section \<open>Properties of the MSA-to-hit reducer\<close>

lemma uint_not_minus_one: "uint (w :: 8 word) \<noteq> - 1"
  using uint_ge_0 [of w] by linarith

lemma upd_tail_error: "upd_tail ix kD qc sc i st \<noteq> Inl e"
  by (simp add: upd_tail_def Let_def uint_not_minus_one split: prod.splits)

lemma gap_walk_error: "gap_walk ix d off a = Inl e \<Longrightarrow> e = OutOfRange"
  by (induction a) (auto split: if_splits)

lemma upd_qgap_error: "upd_qgap ix sc i st = Inl e \<Longrightarrow> e = OutOfRange"
  by (auto simp: upd_qgap_def Let_def split: prod.splits if_splits sum.splits dest: gap_walk_error)

lemma buf_read_error: "buf_read s a = Inl e \<Longrightarrow> e = OutOfRange"
  by (auto simp: buf_read_def split: if_splits)

lemma upd_column_error: "upd_column ix kD q i st = Inl e \<Longrightarrow> e = OutOfRange"
  by (auto simp: upd_column_def Let_def upd_tail_error
      split: prod.splits if_splits sum.splits dest: buf_read_error upd_qgap_error)

lemma upd_loop_error: "upd_loop ix kD q k st = Inl e \<Longrightarrow> e = OutOfRange"
proof (induction ix kD q k st rule: upd_loop.induct)
  case (1 ix kD q k st)
  show ?case
  proof (cases "k < unat (m_size q)")
    case False
    with "1.prems" show ?thesis by (simp add: upd_loop.simps [of ix kD q k st])
  next
    case True
    show ?thesis
    proof (cases "upd_column ix kD q (of_nat k) st")
      case (Inl e')
      with True "1.prems" have "e' = e" by (simp add: upd_loop.simps [of ix kD q k st])
      with Inl show ?thesis by (auto dest: upd_column_error)
    next
      case (Inr st1)
      with True "1.prems" have "upd_loop ix kD q (Suc k) st1 = Inl e"
        by (simp add: upd_loop.simps [of ix kD q k st])
      with "1.IH" [OF True Inr] show ?thesis by simp
    qed
  qed
qed

lemma upd_blank_error: "upd_blank ix js s = Inl e \<Longrightarrow> e = OutOfRange"
  by (induction js arbitrary: s) (auto simp: Let_def split: if_splits)

lemma upd_finish_error: "upd_finish ix s = Inl e \<Longrightarrow> e = OutOfRange \<or> e = AssertionFailed"
  by (auto simp: upd_finish_def split: if_splits dest: upd_blank_error)

text \<open>
  Whatever the table, the matrix and the two rows, \<open>update\<close> never raises the error that
  names a letter: the two tests \<open>rq == -1\<close> and \<open>rs == -1\<close> compare an unsigned byte with
  \<open>- 1\<close>.
\<close>

lemma update_never_reports_letter: "update ix kD q s \<noteq> Inl (InvalidLetter c)"
proof
  assume "update ix kD q s = Inl (InvalidLetter c)"
  then show False
    by (auto simp: update_def Let_def split: sum.splits prod.splits
        dest: upd_loop_error upd_finish_error)
qed

lemma spec_A: "kResidueIX_spec CHR ''A'' = 8"
  by code_simp

lemma spec_question_mark: "kResidueIX_spec CHR ''?'' = 255"
  by code_simp

lemmas upd_unroll =
  upd_loop.simps [of _ _ _ 0] upd_loop.simps [of _ _ _ "Suc 0"]
  upd_loop.simps [of _ _ _ "Suc (Suc 0)"]

lemmas upd_body =
  upd_column_def buf_read_def is_gap_def upd_aligned_def upd_tail_def float_incr_def

lemma update_invalid_query_letter:
  "\<exists>s'. update kResidueIX_spec kD (row_of ''A?'') (row_of ''AA'') = Inr s' \<and>
     m_begin s' = 0 \<and> m_end s' = 2 \<and> m_length s' = 2 \<and> m_data s' = ''AA''"
  apply (simp add: update_def row_of_def)
  apply (simp add: upd_unroll)
  apply (simp add: upd_body spec_A spec_question_mark Let_def)
  apply (simp add: upd_unroll)
  apply (simp add: upd_body spec_A spec_question_mark Let_def)
  apply (simp add: upd_unroll)
  apply (simp add: upd_finish_def is_gap_def spec_A spec_question_mark upt_conv_Cons)
  done

lemma update_invalid_subject_letter:
  "\<exists>s'. update kResidueIX_spec kD (row_of ''AA'') (row_of ''A?'') = Inr s' \<and>
     m_begin s' = 0 \<and> m_end s' = 2 \<and> m_length s' = 2 \<and> m_data s' = ''A?''"
  apply (simp add: update_def row_of_def)
  apply (simp add: upd_unroll)
  apply (simp add: upd_body spec_A spec_question_mark Let_def)
  apply (simp add: upd_unroll)
  apply (simp add: upd_body spec_A spec_question_mark Let_def)
  apply (simp add: upd_unroll)
  apply (simp add: upd_finish_def is_gap_def spec_A spec_question_mark upt_conv_Cons)
  done

text \<open>
  C1.  The character \<open>?\<close> fails the alphabet check of the table (its entry is \<open>- 1\<close>), yet
  a query row or a subject row that holds it in an aligned column is reduced without
  any error, for every similarity matrix: the column lies in the alignment window
  \<open>[0, 2)\<close> and counts towards the alignment length.
\<close>

theorem update_accepts_invalid_letter:
  "sint (kResidueIX_spec CHR ''?'') = - 1 \<and>
   (\<forall>kD. \<exists>s'. update kResidueIX_spec kD (row_of ''A?'') (row_of ''AA'') = Inr s' \<and>
      m_begin s' = 0 \<and> m_end s' = 2 \<and> m_length s' = 2 \<and> m_data s' = ''AA'') \<and>
   (\<forall>kD. \<exists>s'. update kResidueIX_spec kD (row_of ''AA'') (row_of ''A?'') = Inr s' \<and>
      m_begin s' = 0 \<and> m_end s' = 2 \<and> m_length s' = 2 \<and> m_data s' = ''A?'')"
  using update_invalid_query_letter update_invalid_subject_letter
  by (simp add: spec_question_mark)

section \<open>Properties of the residue-column profiler\<close>

text \<open>
  A query column \<open>V\<close> with seven hits on the same chain that carry seven other
  residues: occupancy 8, and each of the eight counters becomes
  \<open>uint32(12.5 + 0.5) = 13\<close>.  Every step of this computation is exact in binary64.
\<close>

lemma variability_eight_residues:
  "CalculateVariability kResidueIX_spec
     (map (\<lambda>t. hit_of ''V'' t CHR ''A'') [''L'', ''I'', ''M'', ''F'', ''W'', ''Y'', ''G''])
     (ResidueHInfo_new CHR ''V'' 0 CHR ''A'' 1 1 []) =
   Inr ((ResidueHInfo_new CHR ''V'' 0 CHR ''A'' 1 1 [])
          \<lparr>nocc := 8, dist_h := replicate 8 13 @ replicate 12 0\<rparr>)"
  by code_simp

text \<open>
  The rounding error of binary64 on the values that arise.  \<open>ilog2\<close> never overshoots,
  rounding to a whole number moves by at most one half, and so a value below 256 moves
  by at most \<open>2\<^sup>-\<^sup>4\<^sup>6\<close> when it is rounded to 53 significant bits.
\<close>

lemma pow2_pos: "0 < pow2 k"
  by (simp add: pow2_def)

lemma pow2_powi: "pow2 k = 2 powi k"
  by (simp add: pow2_def power_int_def field_simps)

lemma pow2_mono: "a \<le> b \<Longrightarrow> pow2 a \<le> pow2 b"
  by (simp add: pow2_powi power_int_increasing)

lemma pow2_diff: "pow2 (a - b) = pow2 a / pow2 b"
  by (simp add: pow2_powi power_int_diff)

lemma bits_bounds:
  "0 < a \<Longrightarrow> 2 ^ nat (bits a - 1) \<le> a \<and> a < 2 ^ nat (bits a) \<and> 1 \<le> bits a"
proof (induction a rule: bits.induct)
  case (1 a)
  show ?case
  proof (cases "a div 2 \<le> 0")
    case True
    then have "a = 1" using 1(2) by linarith
    then show ?thesis by (simp add: bits.simps [of 1] bits.simps [of 0])
  next
    case False
    then have pos: "0 < a div 2" by simp
    have ih: "2 ^ nat (bits (a div 2) - 1) \<le> a div 2 \<and> a div 2 < 2 ^ nat (bits (a div 2))
        \<and> 1 \<le> bits (a div 2)"
      using 1(1) pos 1(2) by simp
    have b: "bits a = 1 + bits (a div 2)"
      using 1(2) by (simp add: bits.simps [of a])
    have n1: "nat (bits a - 1) = Suc (nat (bits (a div 2) - 1))"
      using ih b by arith
    have n2: "nat (bits a) = Suc (nat (bits (a div 2)))"
      using ih b by arith
    have l: "(2::int) ^ nat (bits a - 1) \<le> a"
      using ih unfolding n1 by simp linarith
    have u: "a < (2::int) ^ nat (bits a)"
      using ih unfolding n2 by simp linarith
    show ?thesis using l u b ih by simp
  qed
qed

lemma ilog2_le:
  assumes "0 < q"
  shows "pow2 (ilog2 q) \<le> q"
proof -
  obtain a b where ab: "quotient_of q = (a, b)" by (cases "quotient_of q")
  have b: "0 < b" using ab by (rule quotient_of_denom_pos)
  have q: "q = of_int a / of_int b" using ab by (rule quotient_of_div)
  have a: "0 < a" using assms b q by (simp add: zero_less_divide_iff)
  let ?e = "bits a - bits b"
  show ?thesis
  proof (cases "pow2 ?e \<le> q")
    case True
    then show ?thesis by (simp add: ilog2_def ab Let_def)
  next
    case False
    have la: "(2::rat) ^ nat (bits a - 1) \<le> of_int a"
    proof -
      have "(2::int) ^ nat (bits a - 1) \<le> a" using bits_bounds [OF a] by simp
      then have "rat_of_int (2 ^ nat (bits a - 1)) \<le> of_int a" by (simp only: of_int_le_iff)
      then show ?thesis by simp
    qed
    have ub: "of_int b \<le> (2::rat) ^ nat (bits b)"
    proof -
      have "b \<le> (2::int) ^ nat (bits b)" using bits_bounds [OF b] by simp
      then have "rat_of_int b \<le> of_int (2 ^ nat (bits b))" by (simp only: of_int_le_iff)
      then show ?thesis by simp
    qed
    have pa: "pow2 (bits a - 1) = 2 ^ nat (bits a - 1)"
      using bits_bounds [OF a] by (simp add: pow2_def)
    have pb: "pow2 (bits b) = 2 ^ nat (bits b)"
      using bits_bounds [OF b] by (simp add: pow2_def)
    have "pow2 (?e - 1) = pow2 (bits a - 1) / pow2 (bits b)"
      using pow2_diff [of "bits a - 1" "bits b"] by (simp add: algebra_simps)
    also have "\<dots> \<le> of_int a / pow2 (bits b)"
      using la pow2_pos [of "bits b"] by (simp add: pa divide_right_mono)
    also have "\<dots> \<le> of_int a / of_int b"
      using ub a b by (simp add: pb frac_le)
    finally have "pow2 (?e - 1) \<le> q" by (simp add: q)
    with False show ?thesis by (simp add: ilog2_def ab Let_def)
  qed
qed

lemma ilog2_less: "0 < q \<Longrightarrow> q < pow2 k \<Longrightarrow> ilog2 q < k"
proof (rule ccontr)
  assume q: "0 < q" "q < pow2 k" and "\<not> ilog2 q < k"
  then have "pow2 k \<le> pow2 (ilog2 q)" by (simp add: pow2_mono)
  with ilog2_le [OF q(1)] q(2) show False by simp
qed

lemma round_even_err: "\<bar>of_int (round_even m) - m\<bar> \<le> 1 / 2"
proof -
  have "of_int \<lfloor>m\<rfloor> \<le> m" "m < of_int \<lfloor>m\<rfloor> + 1" by linarith+
  then show ?thesis
    by (auto simp: round_even_def Let_def abs_le_iff)
qed

lemma f64_err:
  assumes "0 \<le> q" and "q < 256"
  shows "\<bar>f64 q - q\<bar> \<le> 1 / 2 ^ 46"
proof (cases "q = 0")
  case True
  then show ?thesis by (simp add: f64_def)
next
  case False
  with assms have pos: "0 < q" by simp
  define p where "p = max (ilog2 \<bar>q\<bar>) (- 1022) - 52"
  have "q < pow2 8" using assms by (simp add: pow2_def)
  from ilog2_less [OF pos this] have "ilog2 \<bar>q\<bar> < 8" using pos by simp
  then have p: "p \<le> - 45" by (simp add: p_def)
  have pp: "0 < pow2 p" by (rule pow2_pos)
  have "f64 q - q = (of_int (round_even (q / pow2 p)) - q / pow2 p) * pow2 p"
    using False pp by (simp add: f64_def p_def [symmetric] Let_def algebra_simps)
  then have "\<bar>f64 q - q\<bar> = \<bar>of_int (round_even (q / pow2 p)) - q / pow2 p\<bar> * pow2 p"
    using pp by (simp add: abs_mult)
  also have "\<dots> \<le> (1 / 2) * pow2 p"
    using round_even_err [of "q / pow2 p"] pp by (simp add: mult_right_mono)
  also have "\<dots> \<le> (1 / 2) * pow2 (- 45)"
    using pow2_mono [OF p] by simp
  also have "\<dots> = 1 / 2 ^ 46" by (simp add: pow2_def)
  finally show ?thesis .
qed


lemma round_even_nonneg: "0 \<le> m \<Longrightarrow> 0 \<le> round_even m"
  by (auto simp: round_even_def Let_def)

lemma f64_nonneg: "0 \<le> q \<Longrightarrow> 0 \<le> f64 q"
  by (simp add: f64_def Let_def pow2_pos less_imp_le round_even_nonneg)

lemma percent_value:
  assumes "0 < n" and "c \<le> n"
  shows "0 \<le> dadd (dmul 100 (ddiv (of_nat c) (of_nat n))) (1 / 2)"
    and "\<bar>dadd (dmul 100 (ddiv (of_nat c) (of_nat n))) (1 / 2)
           - (100 * (of_nat c / of_nat n) + 1 / 2)\<bar> \<le> 102 * (1 / 2 ^ 46)"
proof -
  define e :: rat where "e = 1 / 2 ^ 46"
  have e: "0 \<le> e" "e \<le> 1 / 1000000" by (simp_all add: e_def)
  define x :: rat where "x = of_nat c / of_nat n"
  define d where "d = f64 x"
  define t where "t = f64 (100 * d)"
  define s where "s = f64 (t + 1 / 2)"
  have x: "0 \<le> x" "x \<le> 1" using assms by (simp_all add: x_def)
  have d0: "0 \<le> d" unfolding d_def using x(1) by (rule f64_nonneg)
  have "x < 256" using x by linarith
  then have de: "\<bar>d - x\<bar> \<le> e" unfolding d_def e_def using x(1) by (intro f64_err)
  have d1: "100 * d < 256" using de x e by linarith
  have d2: "0 \<le> 100 * d" using d0 by linarith
  have t0: "0 \<le> t" unfolding t_def using d2 by (rule f64_nonneg)
  have te: "\<bar>t - 100 * d\<bar> \<le> e" unfolding t_def e_def using d2 d1 by (intro f64_err)
  have t1: "t + 1 / 2 < 256" using te de x e by linarith
  have t2: "0 \<le> t + 1 / 2" using t0 by linarith
  have s0: "0 \<le> s" unfolding s_def using t2 by (rule f64_nonneg)
  have se: "\<bar>s - (t + 1 / 2)\<bar> \<le> e" unfolding s_def e_def using t2 t1 by (intro f64_err)
  have s: "dadd (dmul 100 (ddiv (of_nat c) (of_nat n))) (1 / 2) = s"
    by (simp add: dadd_def dmul_def ddiv_def s_def t_def d_def x_def)
  show "0 \<le> dadd (dmul 100 (ddiv (of_nat c) (of_nat n))) (1 / 2)"
    using s0 by (simp only: s)
  have "\<bar>s - (100 * x + 1 / 2)\<bar> \<le> 102 * e"
    using se te de by linarith
  then show "\<bar>dadd (dmul 100 (ddiv (of_nat c) (of_nat n))) (1 / 2)
           - (100 * (of_nat c / of_nat n) + 1 / 2)\<bar> \<le> 102 * (1 / 2 ^ 46)"
    by (simp only: s x_def e_def)
qed

lemma percent_bounds:
  assumes "0 < n" and "c \<le> n"
  shows "rat_of_nat (percent c n) \<le> 100 * (of_nat c / of_nat n) + (1 / 2 + 102 * (1 / 2 ^ 46))"
    and "100 * (of_nat c / of_nat n) - (1 / 2 + 102 * (1 / 2 ^ 46)) \<le> rat_of_nat (percent c n)"
proof -
  let ?s = "dadd (dmul 100 (ddiv (of_nat c) (of_nat n))) (1 / 2)"
  note v = percent_value [OF assms]
  have f: "0 \<le> \<lfloor>?s\<rfloor>" using v(1) by simp
  have p: "rat_of_nat (percent c n) = of_int \<lfloor>?s\<rfloor>"
    using f by (simp add: percent_def)
  have fl: "of_int \<lfloor>?s\<rfloor> \<le> ?s" "?s < of_int \<lfloor>?s\<rfloor> + 1" by linarith+
  show "rat_of_nat (percent c n) \<le> 100 * (of_nat c / of_nat n) + (1 / 2 + 102 * (1 / 2 ^ 46))"
    unfolding p using fl v(2) by linarith
  show "100 * (of_nat c / of_nat n) - (1 / 2 + 102 * (1 / 2 ^ 46)) \<le> rat_of_nat (percent c n)"
    unfolding p using fl v(2) by linarith
qed

lemma percent_sum_bounds:
  assumes "0 < n"
  shows "(\<forall>c \<in> set d. c \<le> n) \<Longrightarrow>
    rat_of_nat (sum_list (map (\<lambda>c. percent c n) d))
      \<le> 100 * (of_nat (sum_list d) / of_nat n) + of_nat (length d) * (1 / 2 + 102 * (1 / 2 ^ 46)) \<and>
    100 * (of_nat (sum_list d) / of_nat n) - of_nat (length d) * (1 / 2 + 102 * (1 / 2 ^ 46))
      \<le> rat_of_nat (sum_list (map (\<lambda>c. percent c n) d))"
proof (induction d)
  case Nil
  show ?case by simp
next
  case (Cons c d)
  define k :: rat where "k = 1 / 2 + 102 * (1 / 2 ^ 46)"
  from Cons have c: "c \<le> n" by simp
  note b = percent_bounds [OF assms c, folded k_def]
  from Cons have ih:
    "rat_of_nat (sum_list (map (\<lambda>c. percent c n) d))
      \<le> 100 * (of_nat (sum_list d) / of_nat n) + of_nat (length d) * k"
    "100 * (of_nat (sum_list d) / of_nat n) - of_nat (length d) * k
      \<le> rat_of_nat (sum_list (map (\<lambda>c. percent c n) d))"
    by (simp_all add: k_def)
  have split: "100 * (rat_of_nat (sum_list (c # d)) / of_nat n)
      = 100 * (of_nat c / of_nat n) + 100 * (of_nat (sum_list d) / of_nat n)"
    by (simp add: add_divide_distrib algebra_simps)
  have len: "rat_of_nat (length (c # d)) * k = k + of_nat (length d) * k"
    by (simp add: algebra_simps)
  have sm: "rat_of_nat (sum_list (map (\<lambda>c. percent c n) (c # d)))
      = of_nat (percent c n) + of_nat (sum_list (map (\<lambda>c. percent c n) d))"
    by simp
  show ?case
    unfolding k_def [symmetric] split len sm using b ih by linarith
qed

text \<open>
  The rounding is not that of the exact quotient: 23 of 40 is 57.5 percent, which the
  three binary64 operations turn into 57.
\<close>

lemma percent_tie: "percent 23 40 = 57"
  by code_simp

text \<open>The first loop keeps the counters in step with the occupancy.\<close>

lemma cv_count_sum:
  "cv_count ix c p hits (n, d) = Inr (n', d') \<Longrightarrow>
     length d' = length d \<and> sum_list d' + n = sum_list d + n'"
proof (induction hits arbitrary: n d)
  case Nil
  then show ?case by simp
next
  case (Cons h hs)
  show ?case
  proof (cases "hit_chain h \<noteq> c")
    case True
    with Cons show ?thesis by simp
  next
    case False
    then obtain a where a: "seq_at (hit_seq h) p = Inr a"
      using Cons.prems by (auto split: sum.splits)
    show ?thesis
    proof (cases "0 \<le> sint (ix a)")
      case neg: False
      with False a Cons show ?thesis by (simp add: Let_def)
    next
      case True
      let ?k = "nat (sint (ix a))"
      from True False a Cons.prems have k: "?k < length d"
        by (auto simp: Let_def split: if_splits)
      with True False a Cons.prems have
        "cv_count ix c p hs (Suc n, d[?k := Suc (d ! ?k)]) = Inr (n', d')"
        by (simp add: Let_def)
      from Cons.IH [OF this] have
        "length d' = length d" "sum_list d' + Suc n = sum_list (d[?k := Suc (d ! ?k)]) + n'"
        by simp_all
      moreover have "sum_list (d[?k := Suc (d ! ?k)]) = Suc (sum_list d)"
        using k by (simp add: sum_list_update)
      ultimately show ?thesis by simp
    qed
  qed
qed

lemma sum_list_seed: "k < 20 \<Longrightarrow> sum_list ((replicate 20 (0::nat))[k := 1]) = 1"
  by (simp add: sum_list_update)

text \<open>
  C5.  The claim as stated fails: in the example above the 20 percentages sum to 104.
\<close>

theorem variability_sum_104:
  "CalculateVariability kResidueIX_spec
     (map (\<lambda>t. hit_of ''V'' t CHR ''A'') [''L'', ''I'', ''M'', ''F'', ''W'', ''Y'', ''G''])
     (ResidueHInfo_new CHR ''V'' 0 CHR ''A'' 1 1 []) =
   Inr ((ResidueHInfo_new CHR ''V'' 0 CHR ''A'' 1 1 [])
          \<lparr>nocc := 8, dist_h := replicate 8 13 @ replicate 12 0\<rparr>) \<and>
   sum_list (dist_h ((ResidueHInfo_new CHR ''V'' 0 CHR ''A'' 1 1 [])
          \<lparr>nocc := 8, dist_h := replicate 8 13 @ replicate 12 0\<rparr>)) = 104"
  using variability_eight_residues by (simp add: sum_list_replicate)

text \<open>
  C5, amended.  For a residue info as its constructor leaves it (\<open>nocc = 1\<close>) whose
  letter is a residue, and a hit list that is not empty, the 20 percentages written by
  \<open>CalculateVariability\<close> sum to a value within \<open>100 \<plusminus> 10\<close>, between 90 and 110: each
  entry is within one half, and the binary64 rounding error, of the exact percentage.
\<close>

theorem variability_sum_within_ten:
  assumes "CalculateVariability ix hits r = Inr r'"
    and "hits \<noteq> []" and "nocc r = 1" and "0 \<le> sint (ix (letter r))"
  shows "90 \<le> sum_list (dist_h r') \<and> sum_list (dist_h r') \<le> 110"
proof -
  let ?k = "nat (sint (ix (letter r)))"
  from assms have k: "?k < 20"
    by (auto simp: CalculateVariability_def Let_def split: if_splits)
  from assms k obtain n d where
    cnt: "cv_count ix (chain_h r) (pos r) hits (1, (replicate 20 0)[?k := 1]) = Inr (n, d)"
    and n: "n \<noteq> 0" and r': "dist_h r' = map (\<lambda>c. percent c n) d"
    by (auto simp: CalculateVariability_def Let_def split: if_splits sum.splits prod.splits)
  from cv_count_sum [OF cnt] sum_list_seed [OF k]
  have len: "length d = 20" and sum: "sum_list d = n"
    by simp_all
  from n have pos_n: "0 < n" by simp
  have le: "\<forall>c \<in> set d. c \<le> n"
    using member_le_sum_list [of _ d] by (simp add: sum)
  define e :: rat where "e = 1 / 2 ^ 46"
  have e: "0 \<le> e" "e \<le> 1 / 1000000" by (simp_all add: e_def)
  have one: "rat_of_nat (sum_list d) / of_nat n = 1"
    using pos_n by (simp add: sum)
  from percent_sum_bounds [OF pos_n le] have
    up: "rat_of_nat (sum_list (dist_h r')) \<le> 100 * 1 + 20 * (1 / 2 + 102 * e)" and
    low: "100 * 1 - 20 * (1 / 2 + 102 * e) \<le> rat_of_nat (sum_list (dist_h r'))"
    by (simp_all only: r' one len e_def of_nat_numeral)
  have "rat_of_nat (sum_list (dist_h r')) < rat_of_nat 111"
    using up e by simp
  then have u: "sum_list (dist_h r') < 111"
    by (simp only: of_nat_less_iff)
  have "rat_of_nat 89 < rat_of_nat (sum_list (dist_h r'))"
    using low e by simp
  then have l: "89 < sum_list (dist_h r')"
    by (simp only: of_nat_less_iff)
  from u l show ?thesis by simp
qed

theorem variability_sum_within_ten_witness:
  "CalculateVariability kResidueIX_spec
     (map (\<lambda>t. hit_of ''V'' t CHR ''A'') [''L'', ''I'', ''M'', ''F'', ''W'', ''Y'', ''G''])
     (ResidueHInfo_new CHR ''V'' 0 CHR ''A'' 1 1 []) =
   Inr ((ResidueHInfo_new CHR ''V'' 0 CHR ''A'' 1 1 [])
          \<lparr>nocc := 8, dist_h := replicate 8 13 @ replicate 12 0\<rparr>) \<and>
   nocc (ResidueHInfo_new CHR ''V'' 0 CHR ''A'' 1 1 []) = 1 \<and>
   0 \<le> sint (kResidueIX_spec (letter (ResidueHInfo_new CHR ''V'' 0 CHR ''A'' 1 1 []))) \<and>
   90 \<le> sum_list (replicate 8 13 @ replicate 12 (0::nat)) \<and>
   sum_list (replicate 8 13 @ replicate 12 (0::nat)) \<le> 110"
proof -
  have v: "kResidueIX_spec CHR ''V'' = 0" by code_simp
  from variability_sum_within_ten [OF variability_eight_residues]
  show ?thesis
    using variability_eight_residues by (simp add: ResidueHInfo_new_def v sum_list_replicate)
qed

section \<open>Properties of the conservation weighting\<close>

lemma spec_residues:
  "kResidueIX_spec CHR ''A'' = 8" "kResidueIX_spec CHR ''C'' = 12"
  "kResidueIX_spec CHR ''D'' = 19" "kResidueIX_spec CHR ''E'' = 17"
  "kResidueIX_spec CHR ''.'' = 254"
  by code_simp+

lemma f32_small_values:
  "f32 1 = 1" "f32 2 = 2" "fdiv 1 2 = 1 / 2" "fsub 1 (1 / 2) = 1 / 2"
  "fmul (1 / 2) 0 = 0" "fmul (1 / 2) (3 / 2) = 3 / 4" "fadd 0 (3 / 4) = 3 / 4"
  "fadd (3 / 4) 0 = 3 / 4" "fadd 0 0 = 0" "fdiv 0 (3 / 4) = 0"
  by code_simp+

lemma FLT_MIN_not_zero: "0 \<noteq> FLT_MIN"
  by code_simp

lemma upt_0_3: "[0..<3] = [0, Suc 0, 2]"
  by code_simp

text \<open>
  The query \<open>ACD\<close> and one hit \<open>A.E\<close>, both with the window \<open>[0, 3)\<close>, as \<open>update\<close>
  leaves the hit \<open>A-E\<close>.  The first loop finds two columns without a gap, one of them
  identical, and does not touch \<open>simval[1]\<close>, which still holds the 0 the vector was
  created with.
\<close>

lemma conservation_scan:
  "pair_scan kResidueIX_spec kD (row_of ''ACD'') (row_of ''A.E'') [0, Suc 0, 2] (0, 0, [0, 0, 0])
     = Inr (2, 1, [kD 8 8, 0, kD 19 17])"
  by (simp add: row_of_def seq_at_def buf_read_def is_gap_def spec_residues)

lemma conservation_sum:
  "pair_sum (1 / 2) [0, Suc 0, 2]
     \<lparr>sumvar = [0, 0, 0], sumdist = [0, 0, 0], simval = [x, 0, y]\<rparr> =
   Inr \<lparr>sumvar = [if x \<noteq> FLT_MIN then fadd 0 (fmul (1 / 2) x) else 0, 0,
                   if y \<noteq> FLT_MIN then fadd 0 (fmul (1 / 2) y) else 0],
         sumdist = [if x \<noteq> FLT_MIN then 3 / 4 else 0, 3 / 4,
                    if y \<noteq> FLT_MIN then 3 / 4 else 0],
         simval = [x, 0, y]\<rparr>"
  by (simp add: f32_small_values FLT_MIN_not_zero)

lemma conservation_pair:
  "cons_pair kResidueIX_spec kD (row_of ''ACD'') (row_of ''A.E'')
     \<lparr>sumvar = [0, 0, 0], sumdist = [0, 0, 0], simval = [0, 0, 0]\<rparr> =
   Inr \<lparr>sumvar = [if kD 8 8 \<noteq> FLT_MIN then fadd 0 (fmul (1 / 2) (kD 8 8)) else 0, 0,
                   if kD 19 17 \<noteq> FLT_MIN then fadd 0 (fmul (1 / 2) (kD 19 17)) else 0],
         sumdist = [if kD 8 8 \<noteq> FLT_MIN then 3 / 4 else 0, 3 / 4,
                    if kD 19 17 \<noteq> FLT_MIN then 3 / 4 else 0],
         simval = [kD 8 8, 0, kD 19 17]\<rparr>"
proof -
  have window:
    "[unat (m_begin (row_of ''ACD'')) ..< unat (m_end (row_of ''ACD''))] = [0, Suc 0, 2]"
    "m_begin (row_of ''A.E'') = m_begin (row_of ''ACD'')"
    "m_end (row_of ''A.E'') = m_end (row_of ''ACD'')"
    by (simp_all add: row_of_def upt_0_3)
  show ?thesis
    by (simp add: cons_pair_def window conservation_scan conservation_sum f32_small_values
        Let_def del: pair_scan.simps pair_sum.simps)
qed

lemma conservation_assign:
  "\<exists>res'. cons_assign kResidueIX_spec (row_of ''ACD'') [a, 0, b] [c, 3 / 4, d] [0, Suc 0, 2]
      ([ResidueHInfo_new CHR ''A'' 0 CHR ''A'' 1 1 [], ResidueHInfo_new CHR ''C'' 1 CHR ''A'' 2 2 [],
        ResidueHInfo_new CHR ''D'' 2 CHR ''A'' 3 3 []], 0) = Inr (res', 3) \<and>
      length res' = 3 \<and> consweight (res' ! 1) = 0"
  by (simp add: row_of_def seq_at_def buf_read_def is_gap_def spec_residues f32_small_values
      Let_def skip_breaks.simps ResidueHInfo_new_def)

lemma conservation_gapped_column:
  "\<exists>res'. CalculateConservation kResidueIX_spec kD [row_of ''ACD'', row_of ''A.E'']
      [ResidueHInfo_new CHR ''A'' 0 CHR ''A'' 1 1 [], ResidueHInfo_new CHR ''C'' 1 CHR ''A'' 2 2 [],
       ResidueHInfo_new CHR ''D'' 2 CHR ''A'' 3 3 []] = Inr res' \<and>
      consweight (res' ! 1) = 0"
proof -
  have n: "unat (seq_length (row_of ''ACD'')) = 3" "m_pruned (row_of ''ACD'') = False"
    "m_pruned (row_of ''A.E'') = False"
    by (simp_all add: seq_length_def row_of_def)
  have zeros: "replicate 3 (0::rat) = [0, 0, 0]"
    by (simp add: numeral_3_eq_3)
  obtain res' where r:
    "cons_assign kResidueIX_spec (row_of ''ACD'')
       [fadd (if kD 8 8 \<noteq> FLT_MIN then fadd 0 (fmul (1 / 2) (kD 8 8)) else 0) 0, 0,
        fadd (if kD 19 17 \<noteq> FLT_MIN then fadd 0 (fmul (1 / 2) (kD 19 17)) else 0) 0]
       [fadd (if kD 8 8 \<noteq> FLT_MIN then 3 / 4 else 0) 0, 3 / 4,
        fadd (if kD 19 17 \<noteq> FLT_MIN then 3 / 4 else 0) 0] [0, Suc 0, 2]
       ([ResidueHInfo_new CHR ''A'' 0 CHR ''A'' 1 1 [], ResidueHInfo_new CHR ''C'' 1 CHR ''A'' 2 2 [],
         ResidueHInfo_new CHR ''D'' 2 CHR ''A'' 3 3 []], 0) = Inr (res', 3)"
    "length res' = 3" "consweight (res' ! 1) = 0"
    using conservation_assign by blast
  show ?thesis
    using r(2,3)
    by (simp add: CalculateConservation_def n upt_0_3 zeros conservation_pair r(1)
        f32_small_values Let_def del: cons_assign.simps)
qed

text \<open>
  C4.  In the MSA of the query \<open>ACD\<close> and the hit \<open>A.E\<close> the hit is gapped at column 1,
  so no pair of rows has two residues there; by the claim the column contributes
  nothing, \<open>sumdist[1]\<close> stays 0 and the weight is exactly 1.  The code gives the column
  the weight 0, whatever the similarity matrix holds: the second loop finds the stale
  \<open>simval[1] = 0\<close>, which is not the marker \<open>numeric_limits<float>::min()\<close>, and adds
  \<open>distance * 1.5\<close> to \<open>sumdist[1]\<close>.
\<close>

theorem conservation_counts_gapped_column:
  "is_gap kResidueIX_spec CHR ''.'' \<and>
   (\<forall>kD. \<exists>res'.
      CalculateConservation kResidueIX_spec kD [row_of ''ACD'', row_of ''A.E'']
        [ResidueHInfo_new CHR ''A'' 0 CHR ''A'' 1 1 [], ResidueHInfo_new CHR ''C'' 1 CHR ''A'' 2 2 [],
         ResidueHInfo_new CHR ''D'' 2 CHR ''A'' 3 3 []] = Inr res' \<and>
      consweight (res' ! 1) = 0)"
  using conservation_gapped_column by (simp add: is_gap_def spec_residues)

section \<open>Properties of the gap-penalty adjustment\<close>

text \<open>The gap counter of a column is the number of rows with a gap there.\<close>

lemma inspect_gaps_fold:
  "length (gaps v) = n \<Longrightarrow> k < n \<Longrightarrow>
     gaps (fold (inspect_row g n) seq v) ! k =
       gaps v ! k + length (filter (\<lambda>e. m_seq e ! k = g) seq) \<and>
     length (gaps (fold (inspect_row g n) seq v)) = n"
proof (induction seq arbitrary: v)
  case Nil
  then show ?case by simp
next
  case (Cons e seq)
  have l: "length (gaps (inspect_row g n e v)) = n"
    by (simp add: inspect_row_def)
  have "gaps (inspect_row g n e v) ! k = gaps v ! k + (if m_seq e ! k = g then 1 else 0)"
    using Cons.prems by (simp add: inspect_row_def)
  with Cons.IH [OF l Cons.prems(2)] show ?case by simp
qed

lemma inspect_gaps_length: "length (gaps (inspect_rows g n seq)) = n"
proof (cases n)
  case 0
  have "length (gaps (fold (inspect_row g 0) seq v)) = 0" if "length (gaps v) = 0" for v
    using that by (induction seq arbitrary: v) (simp_all add: inspect_row_def)
  with 0 show ?thesis by (simp add: inspect_rows_def)
next
  case (Suc m)
  then have "0 < n" by simp
  with inspect_gaps_fold [of "\<lparr>gaps = replicate n 0, hydrophilic_stretch = replicate n False,
        residue_specific_penalty = replicate n 0\<rparr>" n 0 g seq]
  show ?thesis by (simp add: inspect_rows_def)
qed

lemma inspect_gaps_count:
  "k < n \<Longrightarrow> gaps (inspect_rows g n seq) ! k = length (filter (\<lambda>e. m_seq e ! k = g) seq)"
  using inspect_gaps_fold [of "\<lparr>gaps = replicate n 0, hydrophilic_stretch = replicate n False,
        residue_specific_penalty = replicate n 0\<rparr>" n k g seq]
  by (simp add: inspect_rows_def)

lemma inspect_gaps_positive:
  "k < n \<Longrightarrow> 0 < gaps (inspect_rows g n seq) ! k \<longleftrightarrow> list_ex (\<lambda>e. m_seq e ! k = g) seq"
  by (simp add: inspect_gaps_count list_ex_iff filter_empty_conv)

lemma near_gap_find:
  "near_gap gs ix d =
     find (\<lambda>d. length gs \<le> ix + d \<or> 0 < gs ! (ix + d) \<or> ix < d \<or> 0 < gs ! (ix - d)) [d ..< 8]"
proof (induction gs ix d rule: near_gap.induct)
  case (1 gs ix d)
  show ?case
  proof (cases "d < 8")
    case False
    then show ?thesis by (simp add: near_gap.simps [of gs ix d])
  next
    case True
    then have u: "[d ..< 8] = d # [Suc d ..< 8]" by (simp add: upt_conv_Cons)
    show ?thesis
    proof (cases "length gs \<le> ix + d \<or> 0 < gs ! (ix + d) \<or> ix < d \<or> 0 < gs ! (ix - d)")
      case hit: True
      with True show ?thesis by (simp add: near_gap.simps [of gs ix d] u)
    next
      case miss: False
      with True "1.IH" show ?thesis by (simp add: near_gap.simps [of gs ix d] u)
    qed
  qed
qed

lemma near_gap_trigger:
  assumes "ix < n"
  shows "near_gap (gaps (inspect_rows g n seq)) ix 0 = find (near_trigger g seq n ix) [0 ..< 8]"
proof -
  let ?gs = "gaps (inspect_rows g n seq)"
  have "(length ?gs \<le> ix + d \<or> 0 < ?gs ! (ix + d) \<or> ix < d \<or> 0 < ?gs ! (ix - d)) =
          near_trigger g seq n ix d" for d
  proof (cases "n \<le> ix + d \<or> ix < d")
    case True
    then show ?thesis by (auto simp: near_trigger_def inspect_gaps_length)
  next
    case False
    with assms have "ix + d < n" "ix - d < n" by arith+
    with False show ?thesis
      by (simp add: near_trigger_def inspect_gaps_length inspect_gaps_positive)
  qed
  then show ?thesis by (simp add: near_gap_find)
qed

lemma find_least:
  "find P [0 ..< n] = Some d \<longleftrightarrow> d < n \<and> P d \<and> (\<forall>d'<d. \<not> P d')"
  by (auto simp: find_Some_iff)

lemma find_none: "find P [0 ..< n] = None \<longleftrightarrow> (\<forall>d<n. \<not> P d)"
  by (auto simp: find_None_iff)

lemma adjust_gop_column:
  assumes "adjust_gp g gop gep seq = Inr (gop', gep')"
    and "ix < length gop"
    and "\<not> list_ex (\<lambda>e. m_seq e ! ix = g) seq"
  shows "gop' ! ix =
      residue_rule (length seq) (inspect_rows g (length gop) seq) ix
        (case find (near_trigger g seq (length gop) ix) [0 ..< 8] of
           Some d \<Rightarrow> fmul (gop ! ix) (fdiv (of_nat (2 + (8 - d) * 2)) 8)
         | None \<Rightarrow> gop ! ix)"
proof -
  let ?v = "inspect_rows g (length gop) seq"
  from assms(1) have gop': "gop' = map (\<lambda>ix. adjust_gop (length seq) ?v ix (gop ! ix)) [0 ..< length gop]"
    by (auto simp: adjust_gp_def Let_def split: list.splits if_splits)
  from assms(2,3) have nogap: "\<not> 0 < gaps ?v ! ix"
    by (simp add: inspect_gaps_positive)
  show ?thesis
    using assms(2) nogap
    by (simp add: gop' adjust_gop_def residue_rule_def Let_def near_gap_trigger
        split: option.split)
qed

lemma plain_entry_seq: "m_seq (plain_entry s) = s"
  by (simp add: plain_entry_def)

lemma adjust_gp_gap_free_row: "adjust_gp 24 (replicate 20 1) (replicate 20 1) [plain_entry (replicate 20 0)] =
   Inr (map (\<lambda>ix. adjust_gop 1 (inspect_rows 24 20 [plain_entry (replicate 20 0)]) ix 1) [0 ..< 20], replicate 20 1)"
proof -
  have g: "\<And>ix. ix < 20 \<Longrightarrow> gaps (inspect_rows 24 20 [plain_entry (replicate 20 0)]) ! ix = 0"
    by (simp add: inspect_gaps_count plain_entry_def)
  have e: "map (\<lambda>ix. adjust_gep (inspect_rows 24 20 [plain_entry (replicate 20 0)]) ix (replicate 20 1 ! ix)) [0 ..< 20]
     = replicate 20 1"
    by (rule nth_equalityI) (simp_all add: adjust_gep_def g inspect_gaps_length)
  have o: "map (\<lambda>ix. adjust_gop 1 (inspect_rows 24 20 [plain_entry (replicate 20 0)]) ix (replicate 20 1 ! ix)) [0 ..< 20]
     = map (\<lambda>ix. adjust_gop 1 (inspect_rows 24 20 [plain_entry (replicate 20 0)]) ix 1) [0 ..< 20]"
    by (rule map_cong) simp_all
  have x: "\<not> list_ex (\<lambda>ix. 0 < gaps (inspect_rows 24 20 [plain_entry (replicate 20 0)]) ! ix \<and> 20 \<le> ix) [0 ..< 20]"
    by (simp add: list_ex_iff)
  show ?thesis
    using x by (simp add: adjust_gp_def plain_entry_seq e o Let_def)
qed

text \<open>
  Claim C8: at a column without a gap, \<open>gop\<close> is multiplied by \<open>(2 + (8 - d) * 2) / 8\<close>
  exactly when some row has a gap within 8 columns, at the smallest distance \<open>d\<close>; the
  comment in the source says the same:
  \<open>else if there is a gap within 8 residues, increase gap cost\<close>.  The test of the loop also holds when \<open>ix + d\<close> or \<open>ix - d\<close> falls
  outside the vector: one row of 20 residues has no gap anywhere (the gap code 24 does not
  occur in it), yet \<open>gop[0]\<close> is multiplied by \<open>(2 + (8 - 1) * 2) / 8 = 2\<close> before the
  residue-specific rule, because \<open>ix - d < 0\<close> holds at \<open>d = 1\<close>; column 10, eight or
  more columns away from both ends, receives no multiplier.
\<close>

theorem adjust_gp_multiplier_without_gap: "\<not> list_ex (\<lambda>e. 24 \<in> set (m_seq e)) [plain_entry (replicate 20 0)] \<and>
  (\<exists>gop' gep'. adjust_gp 24 (replicate 20 1) (replicate 20 1) [plain_entry (replicate 20 0)] = Inr (gop', gep') \<and>
     gop' ! 0 = residue_rule 1 (inspect_rows 24 20 [plain_entry (replicate 20 0)]) 0 (fmul 1 (fdiv 16 8)) \<and>
     gop' ! 10 = residue_rule 1 (inspect_rows 24 20 [plain_entry (replicate 20 0)]) 10 1)"
proof -
  let ?rows = "[plain_entry (replicate 20 0)]"
  obtain gop' gep' where r: "adjust_gp 24 (replicate 20 1) (replicate 20 1) ?rows = Inr (gop', gep')"
    using adjust_gp_gap_free_row by blast
  have f0: "find (near_trigger 24 ?rows 20 0) [0 ..< 8] = Some 1"
    by (simp add: find_least near_trigger_def plain_entry_def)
  have f10: "find (near_trigger 24 ?rows 20 10) [0 ..< 8] = None"
    by (simp add: find_none near_trigger_def plain_entry_def)
  from adjust_gop_column [OF r, of 0] f0
  have "gop' ! 0 = residue_rule 1 (inspect_rows 24 20 ?rows) 0 (fmul 1 (fdiv 16 8))"
    by (simp add: plain_entry_def)
  moreover from adjust_gop_column [OF r, of 10] f10
  have "gop' ! 10 = residue_rule 1 (inspect_rows 24 20 ?rows) 10 1"
    by (simp add: plain_entry_def)
  ultimately show ?thesis using r by (simp add: plain_entry_def)
qed

text \<open>
  What the loop does at any column \<open>ix\<close> at which no row has a gap: \<open>gop[ix]\<close> is
  multiplied by \<open>(2 + (8 - d) * 2) / 8\<close> for the smallest \<open>d < 8\<close> at which the column at
  distance \<open>d\<close> on either side has a gap in some row or lies outside the vector
  (\<open>ix + d \<ge> size\<close> or \<open>ix - d < 0\<close>), and is left alone when there is no such \<open>d\<close>; the
  hydrophilic or the residue-specific rule is then applied to the outcome.
\<close>

lemma adjust_gp_near_trigger:
  assumes "adjust_gp g gop gep seq = Inr (gop', gep')"
    and "ix < length gop"
    and "\<not> list_ex (\<lambda>e. m_seq e ! ix = g) seq"
  shows "(\<forall>d. d < 8 \<and> near_trigger g seq (length gop) ix d \<and>
               (\<forall>d'<d. \<not> near_trigger g seq (length gop) ix d') \<longrightarrow>
            gop' ! ix =
              residue_rule (length seq) (inspect_rows g (length gop) seq) ix
                (fmul (gop ! ix) (fdiv (of_nat (2 + (8 - d) * 2)) 8))) \<and>
         ((\<forall>d<8. \<not> near_trigger g seq (length gop) ix d) \<longrightarrow>
            gop' ! ix =
              residue_rule (length seq) (inspect_rows g (length gop) seq) ix (gop ! ix))"
proof -
  let ?v = "inspect_rows g (length gop) seq"
  from assms(1) have gop': "gop' = map (\<lambda>ix. adjust_gop (length seq) ?v ix (gop ! ix)) [0 ..< length gop]"
    by (auto simp: adjust_gp_def Let_def split: list.splits if_splits)
  from assms(2,3) have nogap: "\<not> 0 < gaps ?v ! ix"
    by (simp add: inspect_gaps_positive)
  have val: "gop' ! ix =
      residue_rule (length seq) ?v ix
        (case find (near_trigger g seq (length gop) ix) [0 ..< 8] of
           Some d \<Rightarrow> fmul (gop ! ix) (fdiv (of_nat (2 + (8 - d) * 2)) 8)
         | None \<Rightarrow> gop ! ix)"
    using assms(2) nogap
    by (simp add: gop' adjust_gop_def residue_rule_def Let_def near_gap_trigger
        split: option.split)
  show ?thesis
  proof (intro conjI allI impI)
    fix d
    assume "d < 8 \<and> near_trigger g seq (length gop) ix d \<and>
            (\<forall>d'<d. \<not> near_trigger g seq (length gop) ix d')"
    then have "find (near_trigger g seq (length gop) ix) [0 ..< 8] = Some d"
      by (simp add: find_least)
    with val show "gop' ! ix =
        residue_rule (length seq) ?v ix (fmul (gop ! ix) (fdiv (of_nat (2 + (8 - d) * 2)) 8))"
      by simp
  next
    assume "\<forall>d<8. \<not> near_trigger g seq (length gop) ix d"
    then have "find (near_trigger g seq (length gop) ix) [0 ..< 8] = None"
      by (simp add: find_none)
    with val show "gop' ! ix = residue_rule (length seq) ?v ix (gop ! ix)"
      by simp
  qed
qed

lemma adjust_gapped_once: "adjust_gp 24 [1] [1] [plain_entry [24]] = Inr ([0], [1 / 2])"
  by code_simp

lemma adjust_gapped_twice: "adjust_gp 24 [0] [1 / 2] [plain_entry [24]] = Inr ([0], [1 / 4])"
  by code_simp

text \<open>
  C9.  The claim as stated fails: for one row that is a single gap, the first run takes
  \<open>gep = [1]\<close> to \<open>[1 / 2]\<close> and a second run takes it on to \<open>[1 / 4]\<close> (both halvings
  are exact in binary32).
\<close>

theorem adjust_gp_not_idempotent:
  "adjust_gp 24 [1] [1] [plain_entry [24]] = Inr ([0], [1 / 2]) \<and>
   adjust_gp 24 [0] [1 / 2] [plain_entry [24]] = Inr ([0], [1 / 4]) \<and>
   ([0], [1 / 4]) \<noteq> ([0 :: rat], [1 / 2 :: rat])"
  using adjust_gapped_once adjust_gapped_twice by simp

text \<open>
  C9, amended.  \<open>adjust_gp\<close> only reads the rows, and what its inspection phase finds
  (gap counts, hydrophilic stretches, residue penalties) depends on the rows and the
  number of columns alone.  A second run on the adjusted vectors succeeds and applies
  the adjustment of every column a second time; it does not return the result of the
  first run.
\<close>

theorem adjust_gp_twice:
  assumes "adjust_gp g gop gep seq = Inr (gop1, gep1)"
  shows "adjust_gp g gop1 gep1 seq =
           Inr (map (\<lambda>ix. adjust_gop (length seq) (inspect_rows g (length gop) seq) ix
                        (adjust_gop (length seq) (inspect_rows g (length gop) seq) ix (gop ! ix)))
                  [0 ..< length gop],
                map (\<lambda>ix. adjust_gep (inspect_rows g (length gop) seq) ix
                        (adjust_gep (inspect_rows g (length gop) seq) ix (gep ! ix)))
                  [0 ..< length gep])"
proof -
  let ?v = "inspect_rows g (length gop) seq"
  from assms obtain front rest where seq: "seq = front # rest"
    by (auto simp: adjust_gp_def split: list.splits)
  from assms seq have c1: "length gop = length (m_seq front)"
    and c2: "\<not> list_ex (\<lambda>e. length (m_seq e) < length gop) seq"
    and c3: "\<not> list_ex (\<lambda>ix. 0 < gaps ?v ! ix \<and> length gep \<le> ix) [0 ..< length gop]"
    and g1: "gop1 = map (\<lambda>ix. adjust_gop (length seq) ?v ix (gop ! ix)) [0 ..< length gop]"
    and e1: "gep1 = map (\<lambda>ix. adjust_gep ?v ix (gep ! ix)) [0 ..< length gep]"
    by (auto simp: adjust_gp_def Let_def split: if_splits)
  have l: "length gop1 = length gop" "length gep1 = length gep"
    by (simp_all add: g1 e1)
  have m1: "map (\<lambda>ix. adjust_gop (length seq) ?v ix (gop1 ! ix)) [0 ..< length gop] =
            map (\<lambda>ix. adjust_gop (length seq) ?v ix (adjust_gop (length seq) ?v ix (gop ! ix)))
              [0 ..< length gop]"
    by (rule map_cong) (simp_all add: g1)
  have m2: "map (\<lambda>ix. adjust_gep ?v ix (gep1 ! ix)) [0 ..< length gep] =
            map (\<lambda>ix. adjust_gep ?v ix (adjust_gep ?v ix (gep ! ix))) [0 ..< length gep]"
    by (rule map_cong) (simp_all add: e1)
  show ?thesis
    using c1 c2 c3 m1 m2 by (simp add: adjust_gp_def seq l Let_def)
qed

theorem adjust_gp_twice_witness:
  "adjust_gp 24 [0] [1 / 2] [plain_entry [24]] =
     Inr (map (\<lambda>ix. adjust_gop 1 (inspect_rows 24 1 [plain_entry [24]]) ix
                  (adjust_gop 1 (inspect_rows 24 1 [plain_entry [24]]) ix ([1] ! ix))) [0 ..< 1],
          map (\<lambda>ix. adjust_gep (inspect_rows 24 1 [plain_entry [24]]) ix
                  (adjust_gep (inspect_rows 24 1 [plain_entry [24]]) ix ([1] ! ix))) [0 ..< 1])"
  using adjust_gp_twice [OF adjust_gapped_once] by simp


section \<open>Properties of the pairwise distance kernel\<close>

text \<open>
  The rectangle of RYYYPR against RPYPPR, filled cell by cell in single precision: the
  best cell of the last row and the last column carries the count 7.
\<close>

lemma distance_rectangle:
  "dp_highIdSub (fold (dp_cell gonnet250_RYP seq_RYYYPR seq_RPYPPR 0 0 6 6) (dp_cells 0 0 6 6)
     (dp_enter 0 0 0 dp_init)) = 7"
  by code_simp

lemma distance_window: "window_loop [] [] 6 6 6 6 = Inr (6, 6)"
  by (simp add: window_loop.simps)

lemma distance_lengths: "length seq_RYYYPR = 6" "length seq_RPYPPR = 6"
  by (simp_all add: seq_RYYYPR_def seq_RPYPPR_def)

lemma distance_loop:
  "dist_loop gonnet250_RYP seq_RYYYPR seq_RPYPPR [] [] 0 0 6 6 0 dp_init = Inr 7"
  apply (subst dist_loop.simps)
  apply (simp add: distance_lengths distance_window distance_rectangle Let_def)
  apply (subst dist_loop.simps)
  apply (simp add: distance_lengths)
  done

lemma distance_value_7: "distance_value 7 6 6 = - (1398101 / 8388608)"
  by code_simp

text \<open>
  Claim C2: for every pair of entries \<open>calculateDistance\<close> returns a value between 0 and 1,
  as the count \<open>highId\<close> never exceeds the length of the longer sequence.  The loop body
  sets \<open>i\<close> to 1 for two identical residues before it chooses its branch, and adds the
  count of the predecessor in the two gap branches as well, so that one residue is counted
  once for every identical residue that is skipped beside it.  With the Gonnet PAM 250
  scores of R, Y and P the two six-residue sequences RYYYPR and RPYPPR reach the count 7:
  the value of the result expression is \<open>1 - 7 / 6\<close>, below 0, and the first of the two
  assertions of the function fails.
\<close>

theorem calculateDistance_leaves_unit_interval:
  "distance_highId gonnet250_RYP (plain_entry seq_RYYYPR) (plain_entry seq_RPYPPR) = Inr 7
   \<and> distance_value 7 6 6 < 0
   \<and> calculateDistance gonnet250_RYP (plain_entry seq_RYYYPR) (plain_entry seq_RPYPPR)
       = Inl AssertionFailed"
proof -
  have h: "distance_highId gonnet250_RYP (plain_entry seq_RYYYPR) (plain_entry seq_RPYPPR) = Inr 7"
    by (simp add: distance_highId_def plain_entry_def distance_lengths distance_loop)
  have v: "distance_value 7 6 6 < 0"
    by (simp add: distance_value_7)
  have "calculateDistance gonnet250_RYP (plain_entry seq_RYYYPR) (plain_entry seq_RPYPPR)
       = Inl AssertionFailed"
    using v by (simp add: calculateDistance_def h plain_entry_seq distance_lengths)
  with h v show ?thesis by simp
qed

end
